theory Spec2Isabelle
  imports Main "HOL-Library.Multiset"
begin

section \<open>RateGovernor: request budgets of commentWorker.js\<close>

text \<open>
  \<^verbatim>\<open>RATE_LIMITS\<close> and \<^verbatim>\<open>requestCount\<close> of src/workers/commentWorker.js (lines 21-35).
  A budget window holds a counter and the instant (milliseconds) at which it resets.
  The counter starts at 0 and only ever grows by \<^verbatim>\<open>++\<close>, so it is a natural number;
  instants are integers. The field \<^verbatim>\<open>count\<close> of the source is called \<open>cnt\<close> here,
  since \<open>count\<close> is a constant of the multiset library.
\<close>

definition MAX_REQUESTS_PER_MINUTE :: nat where
  "MAX_REQUESTS_PER_MINUTE = 5"

definition MAX_REQUESTS_PER_HOUR :: nat where
  "MAX_REQUESTS_PER_HOUR = 50"

record window =
  cnt :: nat
  resetTime :: int

record requestCount =
  minute :: window
  hour :: window

text \<open>
  \<^verbatim>\<open>checkRateLimit()\<close> (lines 38-69). \<open>now\<close> is the value of \<^verbatim>\<open>Date.now()\<close> read on
  entry; the global \<^verbatim>\<open>requestCount\<close> is passed in and returned. The result pairs the
  returned wait time with the new counters.
\<close>

definition checkRateLimit :: "int \<Rightarrow> requestCount \<Rightarrow> int \<times> requestCount" where
  "checkRateLimit now rc =
     (let rc1 = (if now > resetTime (minute rc)
                 then rc\<lparr>minute := \<lparr>cnt = 0, resetTime = now + 60000\<rparr>\<rparr> else rc);
          rc2 = (if now > resetTime (hour rc1)
                 then rc1\<lparr>hour := \<lparr>cnt = 0, resetTime = now + 3600000\<rparr>\<rparr> else rc1)
      in if cnt (minute rc2) \<ge> MAX_REQUESTS_PER_MINUTE
         then (resetTime (minute rc2) - now, rc2)
         else if cnt (hour rc2) \<ge> MAX_REQUESTS_PER_HOUR
         then (resetTime (hour rc2) - now, rc2)
         else (0, rc2\<lparr>minute := (minute rc2)\<lparr>cnt := cnt (minute rc2) + 1\<rparr>,
                       hour := (hour rc2)\<lparr>cnt := cnt (hour rc2) + 1\<rparr>\<rparr>))"

text \<open>
  The first two steps of \<^verbatim>\<open>checkRateLimit\<close> alone: a window whose reset instant has
  passed is started again. The caps are tested on the counters this leaves.
\<close>

definition reset_windows :: "int \<Rightarrow> requestCount \<Rightarrow> requestCount" where
  "reset_windows now rc =
     (let rc1 = (if now > resetTime (minute rc)
                 then rc\<lparr>minute := \<lparr>cnt = 0, resetTime = now + 60000\<rparr>\<rparr> else rc)
      in if now > resetTime (hour rc1)
         then rc1\<lparr>hour := \<lparr>cnt = 0, resetTime = now + 3600000\<rparr>\<rparr> else rc1)"

text \<open>The invariant of the counters: neither exceeds its cap.\<close>

definition within_caps :: "requestCount \<Rightarrow> bool" where
  "within_caps rc \<longleftrightarrow>
     cnt (minute rc) \<le> MAX_REQUESTS_PER_MINUTE \<and> cnt (hour rc) \<le> MAX_REQUESTS_PER_HOUR"

text \<open>The state of the counters when the module is loaded at instant \<open>t0\<close>.\<close>

definition initial_requestCount :: "int \<Rightarrow> requestCount" where
  "initial_requestCount t0 =
     \<lparr>minute = \<lparr>cnt = 0, resetTime = t0 + 60000\<rparr>,
      hour = \<lparr>cnt = 0, resetTime = t0 + 3600000\<rparr>\<rparr>"

text \<open>A run of calls at the given instants, threading the counters; the waits are collected.\<close>

fun checkRateLimit_run :: "int list \<Rightarrow> requestCount \<Rightarrow> int list \<times> requestCount" where
  "checkRateLimit_run [] rc = ([], rc)"
| "checkRateLimit_run (now # ts) rc =
     (case checkRateLimit now rc of
        (w, rc') \<Rightarrow> (case checkRateLimit_run ts rc' of (ws, rc'') \<Rightarrow> (w # ws, rc'')))"

section \<open>Throttling recovery of commentWorker.js\<close>

text \<open>
  \<^verbatim>\<open>String.prototype.includes\<close> on the byte strings of the model:
  \<open>str_includes s w\<close> holds when \<open>w\<close> occurs in \<open>s\<close> as a contiguous substring.
\<close>

fun startsWith :: "string \<Rightarrow> string \<Rightarrow> bool" where
  "startsWith s [] = True"
| "startsWith [] (c # w) = False"
| "startsWith (d # s) (c # w) = (d = c \<and> startsWith s w)"

fun str_includes :: "string \<Rightarrow> string \<Rightarrow> bool" where
  "str_includes [] w = (w = [])"
| "str_includes (d # s) w = (startsWith (d # s) w \<or> str_includes s w)"

text \<open>
  A thrown JavaScript \<^verbatim>\<open>Error\<close> or \<^verbatim>\<open>TypeError\<close> with its message, an error
  of the database driver with its numeric \<^verbatim>\<open>code\<close> and message, or a validation
  error of the object-document mapper.
\<close>

datatype js_error =
    Error string | TypeError string | MongoError nat string | ValidationError string

definition message_of :: "js_error \<Rightarrow> string" where
  "message_of e =
     (case e of Error m \<Rightarrow> m | TypeError m \<Rightarrow> m | MongoError c m \<Rightarrow> m
      | ValidationError m \<Rightarrow> m)"

text \<open>
  Decimal rendering of a number inside a template literal; \<open>digit_char\<close> is only
  applied to numbers below 10.
\<close>

definition digit_char :: "nat \<Rightarrow> char" where
  "digit_char d = ''0123456789'' ! d"

function show_nat :: "nat \<Rightarrow> string" where
  "show_nat n = (if n < 10 then [digit_char n] else show_nat (n div 10) @ [digit_char (n mod 10)])"
  by pat_completeness auto
termination
  by (relation "measure (\<lambda>n. n)") auto

text \<open>
  The observable effects of the recovery code: a \<^verbatim>\<open>setTimeout\<close> sleep of so many
  milliseconds and a \<^verbatim>\<open>page.reload\<close>.
\<close>

datatype event = Sleep int | Reload

text \<open>
  \<^verbatim>\<open>waitWithBackoff(baseDelay, attempt)\<close> (lines 71-76): the delay it computes and the
  sleep it performs. No code of the repository calls it.
\<close>

definition waitWithBackoff_delay :: "int \<Rightarrow> nat \<Rightarrow> int" where
  "waitWithBackoff_delay baseDelay attempt = min (baseDelay * 2 ^ attempt) 60000"

definition waitWithBackoff :: "int \<Rightarrow> nat \<Rightarrow> event list" where
  "waitWithBackoff baseDelay attempt = [Sleep (waitWithBackoff_delay baseDelay attempt)]"

text \<open>
  \<^verbatim>\<open>handleRateLimitError(page, error, operation, maxRetries = 3)\<close> (lines 78-108).
  The page is represented by the outcome of its reload at each attempt:
  \<open>reload k = None\<close> when the reload of attempt \<open>k\<close> resolves, \<open>Some m\<close> when it
  rejects with message \<open>m\<close>. The result is what the function returns (\<open>Inr\<close>) or
  throws (\<open>Inl\<close>), with the effects performed, in order.
\<close>

function retry_loop ::
  "(nat \<Rightarrow> string option) \<Rightarrow> nat \<Rightarrow> nat \<Rightarrow> event list \<Rightarrow> (js_error + bool) \<times> event list" where
  "retry_loop reload maxRetries attempt tr =
     (if attempt < maxRetries then
        (let waitTime = (int attempt + 1) * 30000;
             tr' = tr @ [Sleep waitTime, Reload]
         in case reload attempt of
              None \<Rightarrow> (Inr True, tr')
            | Some m \<Rightarrow>
                if attempt = maxRetries - 1
                then (Inl (Error (''Rate limit recovery failed after '' @ show_nat maxRetries
                                   @ '' attempts'')), tr')
                else retry_loop reload maxRetries (attempt + 1) tr')
      else (Inr False, tr))"
  by pat_completeness auto
termination
  by (relation "measure (\<lambda>(reload, maxRetries, attempt, tr). maxRetries - attempt)") auto

definition is_throttling_signal :: "js_error \<Rightarrow> bool" where
  "is_throttling_signal e \<longleftrightarrow>
     str_includes (message_of e) ''429'' \<or> str_includes (message_of e) ''Too Many Requests''"

definition handleRateLimitError ::
  "(nat \<Rightarrow> string option) \<Rightarrow> js_error \<Rightarrow> nat \<Rightarrow> (js_error + bool) \<times> event list" where
  "handleRateLimitError reload e maxRetries =
     (if is_throttling_signal e then retry_loop reload maxRetries 0 [] else (Inr False, []))"

text \<open>The effects of \<open>m\<close> recovery attempts: before reload \<open>k\<close> a sleep of \<open>(k + 1) * 30000\<close>.\<close>

definition recovery_trace :: "nat \<Rightarrow> event list" where
  "recovery_trace m = concat (map (\<lambda>k. [Sleep ((int k + 1) * 30000), Reload]) [0..<m])"

section \<open>Filter/RankEngine: postFilters.js and the ranking of linkedPostRefinementWorker.js\<close>

text \<open>
  A scraped post as the workers build it. commentWorker.js stores the post's words under
  \<^verbatim>\<open>text\<close>, linkedPostRefinementWorker.js under \<^verbatim>\<open>content\<close>, and \<^verbatim>\<open>filterPosts\<close>
  reads both, so each field may be absent (\<open>None\<close> is JavaScript's \<^verbatim>\<open>undefined\<close>).
  The field \<^verbatim>\<open>text\<close> is called \<open>ptext\<close> here. Engagement counters are integers
  (the scrapers produce them with \<^verbatim>\<open>parseInt\<close>).
  Strings are lists of bytes, and \<open>length\<close> stands for the \<^verbatim>\<open>length\<close> of the
  JavaScript string.
\<close>

record post =
  postUrl :: string
  ptext :: "string option"
  content :: "string option"
  reactions :: "int option"
  comments :: "int option"
  keyword :: string

text \<open>\<^verbatim>\<open>a || b\<close> on strings: the empty string and \<^verbatim>\<open>undefined\<close> are falsy.\<close>

definition or_str :: "string option \<Rightarrow> string option \<Rightarrow> string option" where
  "or_str a b = (case a of None \<Rightarrow> b | Some s \<Rightarrow> if s = [] then b else Some s)"

text \<open>\<^verbatim>\<open>n || 0\<close> on numbers.\<close>

definition or_zero :: "int option \<Rightarrow> int" where
  "or_zero n = (case n of None \<Rightarrow> 0 | Some k \<Rightarrow> k)"

definition STOP_WORDS :: "string list" where
  "STOP_WORDS =
     [''hiring'',
      [CHR ''w'', CHR ''e'', CHR 0x27, CHR ''r'', CHR ''e''] @ '' looking for'',
      ''job opportunity'',
      ''new position at'',
      ''looking for'',
      ''join our team'',
      ''work anniversary'',
      ''started a new position'',
      ''say congrats'',
      ''congratulations'',
      ''happy work anniversary'',
      ''celebrating'']"

text \<open>\<^verbatim>\<open>toLowerCase\<close> on the ASCII letters.\<close>

definition lower_char :: "char \<Rightarrow> char" where
  "lower_char c =
     (let n = (of_char c :: nat) in if 65 \<le> n \<and> n \<le> 90 then char_of (n + 32) else c)"

definition toLowerCase :: "string \<Rightarrow> string" where
  "toLowerCase s = map lower_char s"

text \<open>
  \<^verbatim>\<open>isExcludedPost(postText)\<close>. On \<^verbatim>\<open>undefined\<close> the first call of
  \<^verbatim>\<open>postText.toLowerCase()\<close> throws a TypeError (the list of stop words is not empty).
\<close>

definition isExcludedPost :: "string option \<Rightarrow> js_error + bool" where
  "isExcludedPost postText =
     (case postText of
        None \<Rightarrow> Inl (TypeError ''Cannot read properties of undefined'')
      | Some s \<Rightarrow> Inr (list_ex (\<lambda>word. str_includes (toLowerCase s) word) STOP_WORDS))"

text \<open>
  \<^verbatim>\<open>Array.prototype.filter\<close> with a callback that may throw: elements are visited in
  order and the first exception ends the call.
\<close>

fun filter_throwing :: "('a \<Rightarrow> js_error + bool) \<Rightarrow> 'a list \<Rightarrow> js_error + 'a list" where
  "filter_throwing f [] = Inr []"
| "filter_throwing f (x # xs) =
     (case f x of
        Inl e \<Rightarrow> Inl e
      | Inr keep \<Rightarrow>
          (case filter_throwing f xs of
             Inl e \<Rightarrow> Inl e
           | Inr ys \<Rightarrow> Inr (if keep then x # ys else ys)))"

text \<open>
  \<^verbatim>\<open>Array.prototype.sort(compareFn)\<close>: a stable sort (ECMAScript 2019). An element
  stays before the elements it does not compare greater than, so it is inserted in front
  of the first element \<open>y\<close> with \<open>compareFn x y \<le> 0\<close>.
\<close>

fun insert_by :: "('a \<Rightarrow> 'a \<Rightarrow> int) \<Rightarrow> 'a \<Rightarrow> 'a list \<Rightarrow> 'a list" where
  "insert_by cmp x [] = [x]"
| "insert_by cmp x (y # ys) = (if cmp x y \<le> 0 then x # y # ys else y # insert_by cmp x ys)"

fun array_sort :: "('a \<Rightarrow> 'a \<Rightarrow> int) \<Rightarrow> 'a list \<Rightarrow> 'a list" where
  "array_sort cmp [] = []"
| "array_sort cmp (x # xs) = insert_by cmp x (array_sort cmp xs)"

text \<open>
  The options object read by \<^verbatim>\<open>filterPosts\<close>; an absent property takes the default of
  the destructuring pattern (\<^verbatim>\<open>minReactions = 10\<close>, \<^verbatim>\<open>excludeJobPosts = true\<close>).
\<close>

record filter_options =
  minReactions :: "int option"
  excludeJobPosts :: "bool option"

definition minReactions_of :: "filter_options \<Rightarrow> int" where
  "minReactions_of opts = (case minReactions opts of None \<Rightarrow> 10 | Some m \<Rightarrow> m)"

definition excludeJobPosts_of :: "filter_options \<Rightarrow> bool" where
  "excludeJobPosts_of opts = (case excludeJobPosts opts of None \<Rightarrow> True | Some b \<Rightarrow> b)"

text \<open>\<^verbatim>\<open>post.reactions >= minReactions\<close>: false when the counter is absent.\<close>

definition meets_threshold :: "int \<Rightarrow> post \<Rightarrow> bool" where
  "meets_threshold m p = (case reactions p of None \<Rightarrow> False | Some r \<Rightarrow> r \<ge> m)"

text \<open>\<^verbatim>\<open>(post.text || post.content || '').length >= 30\<close>.\<close>

definition long_enough :: "post \<Rightarrow> bool" where
  "long_enough p =
     (case or_str (or_str (ptext p) (content p)) (Some []) of
        None \<Rightarrow> False | Some s \<Rightarrow> length s \<ge> 30)"

text \<open>The score and the comparator of the sort inside \<^verbatim>\<open>filterPosts\<close>.\<close>

definition filter_score :: "post \<Rightarrow> int" where
  "filter_score p = or_zero (reactions p) + or_zero (comments p)"

definition filter_cmp :: "post \<Rightarrow> post \<Rightarrow> int" where
  "filter_cmp a b = filter_score b - filter_score a"

text \<open>
  \<^verbatim>\<open>filterPosts(posts, options)\<close> of postFilters.js, on the contents of the arrays:
  the three filters in the source's order, then the sort.
\<close>

definition filterPosts :: "post list \<Rightarrow> filter_options \<Rightarrow> js_error + post list" where
  "filterPosts posts opts =
     (let byEngagement = filter (meets_threshold (minReactions_of opts)) posts
      in case (if excludeJobPosts_of opts
               then filter_throwing
                      (\<lambda>p. map_sum id Not (isExcludedPost (or_str (ptext p) (content p))))
                      byEngagement
               else Inr byEngagement) of
           Inl e \<Rightarrow> Inl e
         | Inr kept \<Rightarrow> Inr (array_sort filter_cmp (filter long_enough kept)))"

text \<open>
  The same function on a store of arrays, to follow which array each step reads and
  writes. An array is addressed by its position in the store; allocation appends.
  \<^verbatim>\<open>[...posts]\<close> and every \<^verbatim>\<open>filter\<close> allocate a new array, \<^verbatim>\<open>sort\<close> rewrites the
  array it is called on and returns the same reference.
\<close>

type_synonym heap = "post list list"

definition alloc :: "post list \<Rightarrow> heap \<Rightarrow> nat \<times> heap" where
  "alloc xs h = (length h, h @ [xs])"

definition sort_in_place :: "(post \<Rightarrow> post \<Rightarrow> int) \<Rightarrow> nat \<Rightarrow> heap \<Rightarrow> heap" where
  "sort_in_place cmp a h = h[a := array_sort cmp (h ! a)]"

definition filterPosts_h :: "nat \<Rightarrow> filter_options \<Rightarrow> heap \<Rightarrow> (js_error + nat) \<times> heap" where
  "filterPosts_h posts opts h =
     (case alloc (h ! posts) h of
        (a1, h1) \<Rightarrow>
     (case alloc (filter (meets_threshold (minReactions_of opts)) (h1 ! a1)) h1 of
        (a2, h2) \<Rightarrow>
     (case (if excludeJobPosts_of opts
            then (case filter_throwing
                         (\<lambda>p. map_sum id Not (isExcludedPost (or_str (ptext p) (content p))))
                         (h2 ! a2) of
                    Inl e \<Rightarrow> Inl e
                  | Inr kept \<Rightarrow> Inr (alloc kept h2))
            else Inr (a2, h2)) of
        Inl e \<Rightarrow> (Inl e, h2)
      | Inr (a3, h3) \<Rightarrow>
     (case alloc (filter long_enough (h3 ! a3)) h3 of
        (a4, h4) \<Rightarrow> (Inr a4, sort_in_place filter_cmp a4 h4)))))"

text \<open>
  \<^verbatim>\<open>rankPosts(posts)\<close> (postFilters.js and linkedPostRefinementWorker.js, the same text):
  \<^verbatim>\<open>a.reactions + a.comments\<close> is NaN when a counter is absent, and a comparator result
  of NaN counts as 0.
\<close>

definition rank_score :: "post \<Rightarrow> int option" where
  "rank_score p =
     (case reactions p of None \<Rightarrow> None
      | Some r \<Rightarrow> (case comments p of None \<Rightarrow> None | Some c \<Rightarrow> Some (r + c)))"

definition rank_cmp :: "post \<Rightarrow> post \<Rightarrow> int" where
  "rank_cmp a b =
     (case rank_score a of None \<Rightarrow> 0
      | Some x \<Rightarrow> (case rank_score b of None \<Rightarrow> 0 | Some y \<Rightarrow> y - x))"

definition rankPosts :: "post list \<Rightarrow> post list" where
  "rankPosts posts = array_sort rank_cmp posts"

definition rankPosts_h :: "nat \<Rightarrow> heap \<Rightarrow> nat \<times> heap" where
  "rankPosts_h posts h = (posts, sort_in_place rank_cmp posts h)"

text \<open>
  The candidates selected for action. commentWorker.js (line 1096) visits
  \<^verbatim>\<open>filteredPosts[i]\<close> for \<^verbatim>\<open>i < Math.min(filteredPosts.length, maxComments)\<close>;
  linkedPostRefinementWorker.js (line 939) takes \<^verbatim>\<open>rankedPosts.slice(0, maxComments)\<close>.
\<close>

definition selected_for_action :: "post list \<Rightarrow> nat \<Rightarrow> post list" where
  "selected_for_action filteredPosts maxComments =
     take (min (length filteredPosts) maxComments) filteredPosts"

definition postsForCommenting :: "post list \<Rightarrow> nat \<Rightarrow> post list" where
  "postsForCommenting rankedPosts maxComments = take maxComments rankedPosts"

text \<open>
  Words used to state what the filter and the ranking compute. A list is in descending
  order of a key when no element is followed by one with a larger key. A post survives
  \<^verbatim>\<open>filterPosts\<close> when it passes the three filters. In linkedPostRefinementWorker.js
  (lines 935-937) the available posts are the scraped ones whose URL is not among the
  URLs already commented.
\<close>

definition desc_by :: "('a \<Rightarrow> int) \<Rightarrow> 'a list \<Rightarrow> bool" where
  "desc_by key xs = sorted_wrt (\<lambda>a b. key b \<le> key a) xs"

definition survives :: "filter_options \<Rightarrow> post \<Rightarrow> bool" where
  "survives opts p \<longleftrightarrow>
     meets_threshold (minReactions_of opts) p \<and>
     (excludeJobPosts_of opts \<longrightarrow> isExcludedPost (or_str (ptext p) (content p)) = Inr False) \<and>
     long_enough p"

definition availablePosts :: "string list \<Rightarrow> post list \<Rightarrow> post list" where
  "availablePosts commentedPostUrls scrapedPosts =
     filter (\<lambda>p. postUrl p \<notin> set commentedPostUrls) scrapedPosts"

section \<open>The stores: jobs, posts, session reports\<close>

text \<open>
  The job document of src/models/CommentJob.js with the paths the workers read and
  write. The schema lists the statuses \<^verbatim>\<open>waiting\<close>, \<^verbatim>\<open>active\<close>, \<^verbatim>\<open>completed\<close>
  and \<^verbatim>\<open>failed\<close>; linkedPostRefinementWorker.js also writes
  \<^verbatim>\<open>permanently_failed\<close> (an update runs no validator, so the value is stored) and
  reads and writes the counter \<^verbatim>\<open>failedAttempts\<close>, a path the schema does not
  declare. Dates are instants in milliseconds.
\<close>

datatype job_status = Waiting | Active | Completed | Failed | Permanently_failed

record report_counts =
  rc_totalPostsScraped :: nat
  rc_filteredPosts :: nat
  rc_commentsPosted :: nat
  rc_failed :: nat

record job_result =
  success :: bool
  commentedCount :: nat
  totalPostsScraped :: nat
  sessionReport :: report_counts

record comment_job =
  status :: job_status
  startedAt :: "int option"
  completedAt :: "int option"
  result :: "job_result option"
  error :: "string option"
  currentStep :: "string option"
  stepProgress :: "nat option"
  failedAttempts :: "nat option"

text \<open>
  A Post document (the schema with the compound unique index on \<^verbatim>\<open>postUrl\<close> and
  \<^verbatim>\<open>userId\<close>; it requires \<^verbatim>\<open>postUrl\<close>, \<^verbatim>\<open>userId\<close> and \<^verbatim>\<open>content\<close>).
  commentWorker.js builds its documents without \<^verbatim>\<open>userId\<close>.
\<close>

record post_doc =
  d_postUrl :: string
  d_userId :: "string option"
  d_jobId :: string
  d_content :: "string option"
  d_reactions :: "int option"
  d_comments :: "int option"
  isCommented :: bool
  commentedText :: "string option"
  commentedAt :: "int option"

text \<open>
  A Session Report document: the counts and the error entries (message and step).
  Times, success rate and keywords are left out.
\<close>

record session_report =
  sr_jobId :: string
  sr_userId :: string
  sr_counts :: report_counts
  sr_errors :: "(string \<times> string) list"

text \<open>
  Everything a run of a worker can change: the three collections and the browser
  processes, counted by the calls of \<^verbatim>\<open>puppeteer.launch\<close> that resolved and the
  calls of \<^verbatim>\<open>browser.close\<close> that were made.
\<close>

record world =
  jobs_coll :: "string \<rightharpoonup> comment_job"
  posts_coll :: "post_doc list"
  reports_coll :: "session_report list"
  browsers_launched :: nat
  browsers_closed :: nat

text \<open>
  The schema is strict (the default): a path it does not declare is not a property of a
  loaded document and is dropped from an update. Of the paths the workers use, only
  \<^verbatim>\<open>failedAttempts\<close> is not declared.
  \<^verbatim>\<open>CommentJob.findById(jobId)\<close> gives the document with its declared paths, so
  \<^verbatim>\<open>existingJob.failedAttempts\<close> is \<^verbatim>\<open>undefined\<close>.
  \<^verbatim>\<open>CommentJob.findByIdAndUpdate(jobId, update)\<close> sets the declared paths of the
  update and leaves the rest of the stored document as it is; no document, no change.
\<close>

definition declared_only :: "comment_job \<Rightarrow> comment_job" where
  "declared_only j = j\<lparr>failedAttempts := None\<rparr>"

definition findById :: "string \<Rightarrow> world \<Rightarrow> comment_job option" where
  "findById jid w = map_option declared_only (jobs_coll w jid)"

definition update_job :: "string \<Rightarrow> (comment_job \<Rightarrow> comment_job) \<Rightarrow> world \<Rightarrow> world" where
  "update_job jid f w =
     (case jobs_coll w jid of None \<Rightarrow> w
      | Some j \<Rightarrow>
          w\<lparr>jobs_coll := (jobs_coll w)(jid \<mapsto> (f j)\<lparr>failedAttempts := failedAttempts j\<rparr>)\<rparr>)"

definition set_progress :: "string \<Rightarrow> string \<Rightarrow> nat \<Rightarrow> world \<Rightarrow> world" where
  "set_progress jid step pct =
     update_job jid (\<lambda>j. j\<lparr>currentStep := Some step, stepProgress := Some pct\<rparr>)"

definition create_report :: "session_report \<Rightarrow> world \<Rightarrow> world" where
  "create_report r w = w\<lparr>reports_coll := reports_coll w @ [r]\<rparr>"

text \<open>
  The unique index: no two documents of the collection have the same pair of
  \<^verbatim>\<open>postUrl\<close> and \<^verbatim>\<open>userId\<close>.
\<close>

definition doc_key :: "post_doc \<Rightarrow> string \<times> string option" where
  "doc_key d = (d_postUrl d, d_userId d)"

definition unique_posts :: "post_doc list \<Rightarrow> bool" where
  "unique_posts store = distinct (map doc_key store)"

definition duplicate_key :: js_error where
  "duplicate_key = MongoError 11000 ''E11000 duplicate key error''"

definition error_code :: "js_error \<Rightarrow> nat option" where
  "error_code e = (case e of MongoError c m \<Rightarrow> Some c | _ \<Rightarrow> None)"

text \<open>
  Validation of a document against the Post schema: the three required paths are
  present, and a required string is not empty.
\<close>

definition valid_post_doc :: "post_doc \<Rightarrow> bool" where
  "valid_post_doc d \<longleftrightarrow>
     d_postUrl d \<noteq> [] \<and> d_userId d \<noteq> None \<and>
     (case d_content d of None \<Rightarrow> False | Some c \<Rightarrow> c \<noteq> [])"

definition validation_error :: js_error where
  "validation_error = ValidationError ''Post validation failed''"

text \<open>
  The write of validated documents against the unique index. In order: the first
  document that violates the index ends the operation with error 11000 and the documents
  after it are not written. Not in order: every document is tried, the ones that violate
  the index are skipped, and error 11000 is raised at the end when any was skipped.
\<close>

fun index_insert_ordered :: "post_doc list \<Rightarrow> post_doc list \<Rightarrow> js_error option \<times> post_doc list" where
  "index_insert_ordered [] store = (None, store)"
| "index_insert_ordered (d # ds) store =
     (if doc_key d \<in> set (map doc_key store) then (Some duplicate_key, store)
      else index_insert_ordered ds (store @ [d]))"

fun index_insert_unordered :: "post_doc list \<Rightarrow> post_doc list \<Rightarrow> js_error option \<times> post_doc list" where
  "index_insert_unordered [] store = (None, store)"
| "index_insert_unordered (d # ds) store =
     (if doc_key d \<in> set (map doc_key store)
      then (Some duplicate_key, snd (index_insert_unordered ds store))
      else index_insert_unordered ds (store @ [d]))"

text \<open>
  \<^verbatim>\<open>Post.insertMany(docs, options)\<close>. Every document is validated first. With the
  default \<^verbatim>\<open>ordered: true\<close> one invalid document rejects the call with the validation
  error and nothing is written; otherwise the documents are written in order. With
  \<^verbatim>\<open>ordered: false\<close> the invalid documents are left out without an error and the
  valid ones are written not in order.
\<close>

definition insertMany_ordered :: "post_doc list \<Rightarrow> post_doc list \<Rightarrow> js_error option \<times> post_doc list" where
  "insertMany_ordered ds store =
     (if list_all valid_post_doc ds then index_insert_ordered ds store
      else (Some validation_error, store))"

definition insertMany_unordered :: "post_doc list \<Rightarrow> post_doc list \<Rightarrow> js_error option \<times> post_doc list" where
  "insertMany_unordered ds store = index_insert_unordered (filter valid_post_doc ds) store"

text \<open>\<^verbatim>\<open>Post.findOneAndUpdate(filter, update)\<close>: the first matching document is updated.\<close>

fun findOneAndUpdate :: "(post_doc \<Rightarrow> bool) \<Rightarrow> (post_doc \<Rightarrow> post_doc) \<Rightarrow> post_doc list \<Rightarrow> post_doc list" where
  "findOneAndUpdate m f [] = []"
| "findOneAndUpdate m f (d # ds) = (if m d then f d # ds else d # findOneAndUpdate m f ds)"

section \<open>The job handlers\<close>

text \<open>
  The data of a queued job, and what the outside world does during one run: the
  instant read by \<^verbatim>\<open>Date.now()\<close> and \<^verbatim>\<open>new Date()\<close> (one instant for the whole run),
  the credential store, the browser, the scraper and the commenter. Each field is the
  outcome of the call named in its comment; \<open>Inl\<close> or \<open>Some\<close> is a rejection.
\<close>

record job_data =
  jobId :: string
  userId :: string
  job_keywords :: "string list"
  maxComments :: nat
  options :: filter_options

datatype act_outcome = Submitted | NoCommentButton | ActThrows js_error

record env =
  date_now :: int
  hasValidLinkedInCookies :: bool
  loadLinkedInCookies :: "js_error + bool"
  launch :: "js_error option"
  page_setup :: "js_error option"
  login_ok :: bool
  scrape :: "js_error + post list \<times> nat"
  generateAIComment :: "post \<Rightarrow> js_error + string"
  postCommentOnPost :: "post \<Rightarrow> string \<Rightarrow> js_error option"
  comment_on_page :: "post \<Rightarrow> act_outcome"

text \<open>
  \<open>loadLinkedInCookies\<close>: the cookies loaded, reduced to whether one is named
  \<^verbatim>\<open>li_at\<close>. \<open>page_setup\<close>: the calls on the new page between the launch and the
  login check. \<open>login_ok\<close>: whether the login checks end with \<^verbatim>\<open>isLoggedIn\<close>.
  \<open>scrape\<close>: the scraping phase as a whole, giving \<^verbatim>\<open>scrapedPosts\<close> and the counter
  \<^verbatim>\<open>totalPostsScraped\<close>. \<open>comment_on_page\<close>: the navigation, typing and submission of
  linkedPostRefinementWorker.js for one post.
\<close>

record handler_result =
  h_success :: bool
  h_message :: "string option"
  h_commentedCount :: "nat option"
  h_totalPostsScraped :: "nat option"

definition skipped :: "string \<Rightarrow> handler_result" where
  "skipped msg = \<lparr>h_success = False, h_message = Some msg,
                  h_commentedCount = None, h_totalPostsScraped = None\<rparr>"

definition finished :: "nat \<Rightarrow> nat \<Rightarrow> handler_result" where
  "finished c t = \<lparr>h_success = True, h_message = None,
                   h_commentedCount = Some c, h_totalPostsScraped = Some t\<rparr>"

definition invalid_cookies :: js_error where
  "invalid_cookies = Error ''LinkedIn cookies are invalid or expired. Please update cookies.''"

text \<open>The error report both workers write in their \<^verbatim>\<open>catch\<close> block.\<close>

definition error_report :: "job_data \<Rightarrow> js_error \<Rightarrow> session_report" where
  "error_report jd err =
     \<lparr>sr_jobId = jobId jd, sr_userId = userId jd,
      sr_counts = \<lparr>rc_totalPostsScraped = 0, rc_filteredPosts = 0,
                   rc_commentsPosted = 0, rc_failed = 1\<rparr>,
      sr_errors = [(message_of err, ''Job execution'')]\<rparr>"

subsection \<open>commentWorker.js\<close>

text \<open>
  The document \<^verbatim>\<open>postsToSave\<close> holds for a scraped post (lines 1059-1081): no
  \<^verbatim>\<open>userId\<close>, the post's \<^verbatim>\<open>text\<close> as content.
\<close>

definition commentWorker_postToSave :: "job_data \<Rightarrow> post \<Rightarrow> post_doc" where
  "commentWorker_postToSave jd p =
     \<lparr>d_postUrl = postUrl p, d_userId = None, d_jobId = jobId jd, d_content = ptext p,
      d_reactions = reactions p, d_comments = comments p,
      isCommented = False, commentedText = None, commentedAt = None\<rparr>"

text \<open>
  The act loop (lines 1092-1139) over the selected posts, with the two counters and the
  stores. An exception of the commenter or of the submission is caught inside the loop
  body and counted in \<^verbatim>\<open>failedCount\<close>.
\<close>

fun commentWorker_act_loop :: "env \<Rightarrow> post list \<Rightarrow> nat \<times> nat \<times> world \<Rightarrow> nat \<times> nat \<times> world" where
  "commentWorker_act_loop e [] acc = acc"
| "commentWorker_act_loop e (p # ps) (commented, failedCount, w) =
     (case generateAIComment e p of
        Inl err \<Rightarrow> commentWorker_act_loop e ps (commented, failedCount + 1, w)
      | Inr comment \<Rightarrow>
          (case postCommentOnPost e p comment of
             Some err \<Rightarrow> commentWorker_act_loop e ps (commented, failedCount + 1, w)
           | None \<Rightarrow>
               commentWorker_act_loop e ps
                 (commented + 1, failedCount,
                  w\<lparr>posts_coll :=
                      findOneAndUpdate (\<lambda>d. d_postUrl d = postUrl p)
                        (\<lambda>d. d\<lparr>isCommented := True, commentedText := Some comment,
                                commentedAt := Some (date_now e)\<rparr>)
                        (posts_coll w)\<rparr>)))"

text \<open>
  The body of the \<^verbatim>\<open>try\<close> block (lines 300-1216). \<open>Inl\<close> is an exception that
  leaves the block, with the stores as they are at that point. On the normal path the
  block itself closes the browser before it returns.
\<close>

definition commentWorker_try :: "env \<Rightarrow> job_data \<Rightarrow> world \<Rightarrow> (js_error + handler_result) \<times> world" where
  "commentWorker_try e jd w0 =
     (let w1 = update_job (jobId jd)
                 (\<lambda>j. j\<lparr>status := Active, startedAt := Some (date_now e),
                         currentStep := Some ''Starting'', stepProgress := Some 10\<rparr>) w0
      in if \<not> hasValidLinkedInCookies e
         then (Inl (Error ''User does not have valid LinkedIn cookies''), w1)
         else
     (let w2 = set_progress (jobId jd) ''Loading Cookies'' 20 w1
      in case loadLinkedInCookies e of
           Inl err \<Rightarrow> (Inl err, w2)
         | Inr has_li_at \<Rightarrow>
     (let w3 = set_progress (jobId jd) ''Launching Browser'' 30 w2
      in case launch e of
           Some err \<Rightarrow> (Inl err, w3)
         | None \<Rightarrow>
     (let w4 = w3\<lparr>browsers_launched := browsers_launched w3 + 1\<rparr>
      in case page_setup e of
           Some err \<Rightarrow> (Inl err, w4)
         | None \<Rightarrow>
           if \<not> has_li_at then (Inl (Error ''Missing li_at cookie''), w4)
           else if \<not> login_ok e then (Inl invalid_cookies, w4)
           else
     (let w5 = set_progress (jobId jd) ''Scraping Posts'' 40 w4
      in case scrape e of
           Inl err \<Rightarrow> (Inl err, w5)
         | Inr (scrapedPosts, totalScraped) \<Rightarrow>
     (let w6 = set_progress (jobId jd) ''Filtering Posts'' 60 w5
      in case filterPosts scrapedPosts (options jd) of
           Inl err \<Rightarrow> (Inl err, w6)
         | Inr filteredPosts \<Rightarrow>
     (case insertMany_ordered (map (commentWorker_postToSave jd) scrapedPosts) (posts_coll w6) of
           (Some err, ps) \<Rightarrow> (Inl err, w6\<lparr>posts_coll := ps\<rparr>)
         | (None, ps) \<Rightarrow>
     (let w7 = set_progress (jobId jd) ''Generating Comments'' 70 (w6\<lparr>posts_coll := ps\<rparr>)
      in case commentWorker_act_loop e
                (selected_for_action filteredPosts (maxComments jd)) (0, 0, w7) of
           (commented, failedCount, w8) \<Rightarrow>
     (let w9 = set_progress (jobId jd) ''Finalizing'' 90 w8;
          counts = \<lparr>rc_totalPostsScraped = totalScraped, rc_filteredPosts = length filteredPosts,
                    rc_commentsPosted = commented, rc_failed = failedCount\<rparr>;
          w10 = create_report \<lparr>sr_jobId = jobId jd, sr_userId = userId jd,
                                sr_counts = counts, sr_errors = []\<rparr> w9;
          w11 = update_job (jobId jd)
                  (\<lambda>j. j\<lparr>status := Completed, completedAt := Some (date_now e),
                          result := Some \<lparr>success = True, commentedCount = commented,
                                           totalPostsScraped = totalScraped, sessionReport = counts\<rparr>,
                          currentStep := Some ''Completed'', stepProgress := Some 100\<rparr>) w10;
          w12 = w11\<lparr>browsers_closed := browsers_closed w11 + 1\<rparr>
      in (Inr (finished commented totalScraped), w12))))))))))"

text \<open>
  The \<^verbatim>\<open>catch\<close> block (lines 1217-1261): the job is marked failed and an error
  report is written. The clean-up that follows reads the identifier \<^verbatim>\<open>browser\<close>,
  which is declared with \<^verbatim>\<open>let\<close> inside the \<^verbatim>\<open>try\<close> block and is not in scope
  here: the read throws a ReferenceError, the inner \<^verbatim>\<open>try/catch\<close> logs it, and
  \<^verbatim>\<open>browser.close\<close> is not called. Then the error is thrown again.
\<close>

definition commentWorker_catch :: "env \<Rightarrow> job_data \<Rightarrow> js_error \<Rightarrow> world \<Rightarrow> world" where
  "commentWorker_catch e jd err w =
     (let w1 = update_job (jobId jd)
                 (\<lambda>j. j\<lparr>status := Failed, error := Some (message_of err),
                         completedAt := Some (date_now e),
                         currentStep := Some ''Failed'', stepProgress := Some 0\<rparr>) w
      in create_report (error_report jd err) w1)"

text \<open>The handler (lines 285-1262): the guard on \<^verbatim>\<open>active\<close>, then \<^verbatim>\<open>try/catch\<close>.\<close>

definition commentWorker_handler :: "env \<Rightarrow> job_data \<Rightarrow> world \<Rightarrow> (js_error + handler_result) \<times> world" where
  "commentWorker_handler e jd w =
     (if (case findById (jobId jd) w of None \<Rightarrow> False | Some j \<Rightarrow> status j = Active)
      then (Inr (skipped ''Job already being processed''), w)
      else (case commentWorker_try e jd w of
              (Inr r, w') \<Rightarrow> (Inr r, w')
            | (Inl err, w') \<Rightarrow> (Inl err, commentWorker_catch e jd err w')))"

subsection \<open>linkedPostRefinementWorker.js\<close>

text \<open>The document \<^verbatim>\<open>postsToInsert\<close> holds for a scraped post (lines 883-896).\<close>

definition refinement_postToInsert :: "job_data \<Rightarrow> post \<Rightarrow> post_doc" where
  "refinement_postToInsert jd p =
     \<lparr>d_postUrl = postUrl p, d_userId = Some (userId jd), d_jobId = jobId jd,
      d_content = content p, d_reactions = reactions p, d_comments = comments p,
      isCommented = False, commentedText = None, commentedAt = None\<rparr>"

text \<open>
  Saving the scraped posts (lines 880-917): \<^verbatim>\<open>insertMany\<close> with \<^verbatim>\<open>ordered: false\<close>
  inside a \<^verbatim>\<open>try\<close> whose \<^verbatim>\<open>catch\<close> lets error 11000 pass and throws any other
  error again. Nothing is written for an empty list.
\<close>

definition refinement_save_posts :: "job_data \<Rightarrow> post list \<Rightarrow> post_doc list \<Rightarrow> js_error option \<times> post_doc list" where
  "refinement_save_posts jd scrapedPosts store =
     (if scrapedPosts = [] then (None, store)
      else (case insertMany_unordered (map (refinement_postToInsert jd) scrapedPosts) store of
              (None, ps) \<Rightarrow> (None, ps)
            | (Some err, ps) \<Rightarrow>
                if error_code err = Some 11000 then (None, ps) else (Some err, ps)))"

text \<open>
  \<^verbatim>\<open>Post.find({jobId, userId, isCommented: true}).distinct('postUrl')\<close> (lines 923-927).
\<close>

definition commentedPostUrls :: "job_data \<Rightarrow> post_doc list \<Rightarrow> string list" where
  "commentedPostUrls jd store =
     remdups (map d_postUrl
       (filter (\<lambda>d. d_jobId d = jobId jd \<and> d_userId d = Some (userId jd) \<and> isCommented d) store))"

text \<open>
  The act loop (lines 949-1012). A post without URL is skipped; an exception is caught
  inside the loop body; only a submitted comment is counted.
\<close>

fun refinement_act_loop :: "env \<Rightarrow> job_data \<Rightarrow> post list \<Rightarrow> nat \<times> world \<Rightarrow> nat \<times> world" where
  "refinement_act_loop e jd [] acc = acc"
| "refinement_act_loop e jd (p # ps) (commented, w) =
     (if postUrl p = [] then refinement_act_loop e jd ps (commented, w)
      else (case comment_on_page e p of
              ActThrows err \<Rightarrow> refinement_act_loop e jd ps (commented, w)
            | NoCommentButton \<Rightarrow> refinement_act_loop e jd ps (commented, w)
            | Submitted \<Rightarrow>
                refinement_act_loop e jd ps
                  (commented + 1,
                   w\<lparr>posts_coll :=
                       findOneAndUpdate
                         (\<lambda>d. d_postUrl d = postUrl p \<and> d_jobId d = jobId jd \<and>
                              d_userId d = Some (userId jd))
                         (\<lambda>d. d\<lparr>isCommented := True, commentedAt := Some (date_now e)\<rparr>)
                         (posts_coll w)\<rparr>)))"

text \<open>
  The body of the \<^verbatim>\<open>try\<close> block (lines 537-1092). With the result comes whether the
  variable \<^verbatim>\<open>cleanup\<close> has been assigned: it is assigned (line 612) after the calls
  that set up the new page, so an exception of the launch or of the page set-up leaves
  it \<^verbatim>\<open>null\<close>. On the normal path the block calls \<^verbatim>\<open>cleanup\<close> before it returns.
\<close>

definition refinement_try :: "env \<Rightarrow> job_data \<Rightarrow> world \<Rightarrow> (js_error + handler_result) \<times> bool \<times> world" where
  "refinement_try e jd w1 =
     (let w2 = set_progress (jobId jd) ''Loading Configuration'' 20 w1;
          w3 = set_progress (jobId jd) ''Launching Browser'' 30 w2
      in case launch e of
           Some err \<Rightarrow> (Inl err, False, w3)
         | None \<Rightarrow>
     (let w4 = w3\<lparr>browsers_launched := browsers_launched w3 + 1\<rparr>
      in case page_setup e of
           Some err \<Rightarrow> (Inl err, False, w4)
         | None \<Rightarrow>
           if \<not> login_ok e then (Inl invalid_cookies, True, w4)
           else
     (let w5 = set_progress (jobId jd) ''Scraping Posts'' 40 w4
      in case scrape e of
           Inl err \<Rightarrow> (Inl err, True, w5)
         | Inr (scrapedPosts, totalScraped) \<Rightarrow>
     (let w6 = set_progress (jobId jd) ''Processing Posts'' 60 w5
      in case refinement_save_posts jd scrapedPosts (posts_coll w6) of
           (Some err, ps) \<Rightarrow> (Inl err, True, w6\<lparr>posts_coll := ps\<rparr>)
         | (None, ps) \<Rightarrow>
     (let w7 = w6\<lparr>posts_coll := ps\<rparr>;
          selected = postsForCommenting
                       (rankPosts (availablePosts (commentedPostUrls jd ps) scrapedPosts))
                       (maxComments jd)
      in case refinement_act_loop e jd selected (0, w7) of
           (commented, w8) \<Rightarrow>
     (let w9 = set_progress (jobId jd) ''Finalizing'' 90 w8;
          counts = \<lparr>rc_totalPostsScraped = length scrapedPosts,
                    rc_filteredPosts = length selected,
                    rc_commentsPosted = commented,
                    rc_failed = length selected - commented\<rparr>;
          w10 = create_report \<lparr>sr_jobId = jobId jd, sr_userId = userId jd,
                                sr_counts = counts, sr_errors = []\<rparr> w9;
          w11 = update_job (jobId jd)
                  (\<lambda>j. j\<lparr>status := Completed, completedAt := Some (date_now e),
                          result := Some \<lparr>success = True, commentedCount = commented,
                                           totalPostsScraped = length scrapedPosts,
                                           sessionReport = counts\<rparr>,
                          currentStep := Some ''Completed'', stepProgress := Some 100\<rparr>) w10;
          w12 = w11\<lparr>browsers_closed := browsers_closed w11 + 1\<rparr>
      in (Inr (finished commented (length scrapedPosts)), True, w12)))))))"

text \<open>
  The \<^verbatim>\<open>catch\<close> block (lines 1089-1135): \<^verbatim>\<open>cleanup\<close> is called when it has been
  assigned; the update marks the job failed and carries the failure count read at the
  start of the run plus one (\<open>update_job\<close> does not store that path); an error report
  is written; the error is thrown again.
\<close>

definition refinement_catch ::
  "env \<Rightarrow> job_data \<Rightarrow> comment_job option \<Rightarrow> js_error \<Rightarrow> bool \<Rightarrow> world \<Rightarrow> world" where
  "refinement_catch e jd existingJob err cleanup_set w =
     (let w1 = (if cleanup_set then w\<lparr>browsers_closed := browsers_closed w + 1\<rparr> else w);
          attempts = (case existingJob of None \<Rightarrow> 0
                      | Some j \<Rightarrow> (case failedAttempts j of None \<Rightarrow> 0 | Some n \<Rightarrow> n)) + 1;
          w2 = update_job (jobId jd)
                 (\<lambda>j. j\<lparr>status := Failed, error := Some (message_of err),
                         failedAttempts := Some attempts,
                         completedAt := Some (date_now e),
                         currentStep := Some ''Failed'', stepProgress := Some 0\<rparr>) w1
      in create_report (error_report jd err) w2)"

text \<open>
  The handler (lines 474-1137): the three guards in the source's order, the update to
  \<^verbatim>\<open>active\<close>, then \<^verbatim>\<open>try/catch\<close>.
\<close>

definition linkedPostRefinementWorker_handler ::
  "env \<Rightarrow> job_data \<Rightarrow> world \<Rightarrow> (js_error + handler_result) \<times> world" where
  "linkedPostRefinementWorker_handler e jd w =
     (let existingJob = findById (jobId jd) w
      in if (case existingJob of None \<Rightarrow> False | Some j \<Rightarrow> status j = Active)
         then (Inr (skipped ''Job already being processed''), w)
         else if (case existingJob of None \<Rightarrow> False
                  | Some j \<Rightarrow> status j = Completed \<and>
                      (case completedAt j of None \<Rightarrow> False
                       | Some t \<Rightarrow> date_now e - t < 5 * 60 * 1000))
         then (Inr (skipped ''Job completed recently''), w)
         else if (case existingJob of None \<Rightarrow> False
                  | Some j \<Rightarrow> status j = Failed \<and>
                      (case failedAttempts j of None \<Rightarrow> 0 | Some n \<Rightarrow> n) \<ge> 3)
         then (Inr (skipped ''Too many failed attempts''),
               update_job (jobId jd)
                 (\<lambda>j. j\<lparr>status := Permanently_failed,
                         error := Some ''Job failed too many times'',
                         completedAt := Some (date_now e)\<rparr>) w)
         else
           (let w1 = update_job (jobId jd)
                       (\<lambda>j. j\<lparr>status := Active, startedAt := Some (date_now e),
                               currentStep := Some ''Starting'', stepProgress := Some 10\<rparr>) w
            in case refinement_try e jd w1 of
                 (Inr r, cleanup_set, w') \<Rightarrow> (Inr r, w')
               | (Inl err, cleanup_set, w') \<Rightarrow>
                   (Inl err, refinement_catch e jd existingJob err cleanup_set w')))"

section \<open>Properties of the request budgets\<close>

lemmas checkRateLimit_unfold =
  checkRateLimit_def Let_def MAX_REQUESTS_PER_MINUTE_def MAX_REQUESTS_PER_HOUR_def

lemma checkRateLimit_caps_preserved:
  "within_caps rc \<Longrightarrow> within_caps (snd (checkRateLimit now rc))"
  by (auto simp: within_caps_def checkRateLimit_unfold)

lemma initial_requestCount_within_caps: "within_caps (initial_requestCount t0)"
  by (simp add: within_caps_def initial_requestCount_def)

lemma checkRateLimit_run_within_caps:
  "within_caps rc \<Longrightarrow> within_caps (snd (checkRateLimit_run ts rc))"
proof (induction ts arbitrary: rc)
  case Nil
  then show ?case by simp
next
  case (Cons now ts)
  have "within_caps (snd (checkRateLimit now rc))"
    using Cons.prems by (rule checkRateLimit_caps_preserved)
  then have "within_caps (snd (checkRateLimit_run ts (snd (checkRateLimit now rc))))"
    by (rule Cons.IH)
  then show ?case by (auto split: prod.splits)
qed

lemma checkRateLimit_wait_nonneg: "0 \<le> fst (checkRateLimit now rc)"
  by (auto simp: checkRateLimit_unfold)

lemma checkRateLimit_wait_no_increment:
  "fst (checkRateLimit now rc) \<noteq> 0 \<Longrightarrow>
   cnt (minute (snd (checkRateLimit now rc))) \<le> cnt (minute rc) \<and>
   cnt (hour (snd (checkRateLimit now rc))) \<le> cnt (hour rc)"
  by (auto simp: checkRateLimit_unfold split: if_splits)

lemma checkRateLimit_admitted_increments:
  "cnt (minute rc) < MAX_REQUESTS_PER_MINUTE \<Longrightarrow> cnt (hour rc) < MAX_REQUESTS_PER_HOUR \<Longrightarrow>
   now \<le> resetTime (minute rc) \<Longrightarrow> now \<le> resetTime (hour rc) \<Longrightarrow>
   checkRateLimit now rc =
     (0, rc\<lparr>minute := (minute rc)\<lparr>cnt := cnt (minute rc) + 1\<rparr>,
             hour := (hour rc)\<lparr>cnt := cnt (hour rc) + 1\<rparr>\<rparr>)"
  by (simp add: checkRateLimit_unfold)

lemma checkRateLimit_minute_cap_strictly_inside_window:
  "cnt (minute rc) \<ge> MAX_REQUESTS_PER_MINUTE \<Longrightarrow> now < resetTime (minute rc) \<Longrightarrow>
   0 < fst (checkRateLimit now rc) \<and>
   fst (checkRateLimit now rc) = resetTime (minute rc) - now \<and>
   minute (snd (checkRateLimit now rc)) = minute rc"
  by (auto simp: checkRateLimit_unfold)

lemma checkRateLimit_zero_wait_at_reset_instant:
  "cnt (minute rc) \<ge> MAX_REQUESTS_PER_MINUTE \<Longrightarrow> now = resetTime (minute rc) \<Longrightarrow>
   now \<le> resetTime (hour rc) \<Longrightarrow> checkRateLimit now rc = (0, rc)"
  by (simp add: checkRateLimit_unfold)

text \<open>
  C10 (as stated). The claim has a call that finds a cap reached return a positive wait.
  Five calls admitted in the first minute after start fill the per-minute budget. A
  sixth call made exactly at the reset instant of the window finds the cap reached (the
  window is started again only when \<^verbatim>\<open>now > resetTime\<close>) and returns the wait
  \<^verbatim>\<open>resetTime - now\<close>, which is 0, not a positive number; the counters stay as they
  are.
\<close>

theorem checkRateLimit_zero_wait_when_capped:
  "let rc5 = snd (checkRateLimit_run [0, 1, 2, 3, 4] (initial_requestCount 0))
   in rc5 = \<lparr>minute = \<lparr>cnt = 5, resetTime = 60000\<rparr>, hour = \<lparr>cnt = 5, resetTime = 3600000\<rparr>\<rparr> \<and>
      cnt (minute (reset_windows 60000 rc5)) \<ge> MAX_REQUESTS_PER_MINUTE \<and>
      checkRateLimit 60000 rc5 = (0, rc5) \<and>
      \<not> 0 < fst (checkRateLimit 60000 rc5)"
  by (simp add: checkRateLimit_unfold initial_requestCount_def reset_windows_def)

text \<open>
  C10 (amended). From counters within the caps (5 a minute, 50 an hour), a call leaves
  counters within the caps. After the windows whose reset instant has passed are started
  again: a call that finds the per-minute cap reached, or else the per-hour cap reached,
  returns the time left until that window resets, which is never negative (and is zero
  when the call is made at the reset instant itself), and increments neither counter; a
  call that finds neither cap reached returns 0 and increments both counters by exactly
  one. So a call that returns a wait other than 0 increments nothing.
\<close>

theorem checkRateLimit_budget:
  assumes "within_caps rc"
  shows "let rc2 = reset_windows now rc;
             wait = fst (checkRateLimit now rc);
             rc' = snd (checkRateLimit now rc)
         in within_caps rc' \<and> 0 \<le> wait \<and>
            (cnt (minute rc2) \<ge> MAX_REQUESTS_PER_MINUTE \<longrightarrow>
               wait = resetTime (minute rc2) - now \<and> rc' = rc2) \<and>
            (cnt (minute rc2) < MAX_REQUESTS_PER_MINUTE \<and> cnt (hour rc2) \<ge> MAX_REQUESTS_PER_HOUR \<longrightarrow>
               wait = resetTime (hour rc2) - now \<and> rc' = rc2) \<and>
            (cnt (minute rc2) < MAX_REQUESTS_PER_MINUTE \<and> cnt (hour rc2) < MAX_REQUESTS_PER_HOUR \<longrightarrow>
               wait = 0 \<and>
               rc' = rc2\<lparr>minute := (minute rc2)\<lparr>cnt := cnt (minute rc2) + 1\<rparr>,
                        hour := (hour rc2)\<lparr>cnt := cnt (hour rc2) + 1\<rparr>\<rparr>) \<and>
            (wait \<noteq> 0 \<longrightarrow> rc' = rc2)"
  using assms
  by (auto simp: within_caps_def checkRateLimit_unfold reset_windows_def)

theorem checkRateLimit_budget_witness:
  "let rc = \<lparr>minute = \<lparr>cnt = 5, resetTime = 60000\<rparr>, hour = \<lparr>cnt = 5, resetTime = 3600000\<rparr>\<rparr>
   in within_caps rc \<and>
      checkRateLimit 45000 rc = (15000, rc) \<and>
      checkRateLimit 60000 rc = (0, rc) \<and>
      checkRateLimit 60001 rc =
        (0, \<lparr>minute = \<lparr>cnt = 1, resetTime = 120001\<rparr>, hour = \<lparr>cnt = 6, resetTime = 3600000\<rparr>\<rparr>)"
proof -
  let ?rc = "\<lparr>minute = \<lparr>cnt = 5, resetTime = 60000\<rparr>, hour = \<lparr>cnt = 5, resetTime = 3600000\<rparr>\<rparr>"
  have w: "within_caps ?rc"
    by (simp add: within_caps_def MAX_REQUESTS_PER_MINUTE_def MAX_REQUESTS_PER_HOUR_def)
  have r1: "reset_windows 45000 ?rc = ?rc" "reset_windows 60000 ?rc = ?rc"
    by (simp_all add: reset_windows_def)
  have r2: "reset_windows 60001 ?rc =
            \<lparr>minute = \<lparr>cnt = 0, resetTime = 120001\<rparr>, hour = \<lparr>cnt = 5, resetTime = 3600000\<rparr>\<rparr>"
    by (simp add: reset_windows_def)
  have a: "checkRateLimit 45000 ?rc = (15000, ?rc)"
    using checkRateLimit_budget[OF w, of 45000] r1
    by (simp add: Let_def MAX_REQUESTS_PER_MINUTE_def prod_eq_iff)
  have b: "checkRateLimit 60000 ?rc = (0, ?rc)"
    using checkRateLimit_budget[OF w, of 60000] r1
    by (simp add: Let_def MAX_REQUESTS_PER_MINUTE_def prod_eq_iff)
  have c: "checkRateLimit 60001 ?rc =
        (0, \<lparr>minute = \<lparr>cnt = 1, resetTime = 120001\<rparr>, hour = \<lparr>cnt = 6, resetTime = 3600000\<rparr>\<rparr>)"
    using checkRateLimit_budget[OF w, of 60001] r2
    by (simp add: Let_def MAX_REQUESTS_PER_MINUTE_def MAX_REQUESTS_PER_HOUR_def prod_eq_iff)
  show ?thesis unfolding Let_def using w a b c by simp
qed

section \<open>Properties of the throttling recovery\<close>

lemma upt_last_attempt: "attempt < maxRetries \<Longrightarrow> attempt = maxRetries - 1 \<Longrightarrow>
  [attempt..<maxRetries] = [attempt]"
  by (cases maxRetries) (simp_all add: upt_rec)

lemma retry_loop_all_fail:
  "attempt < maxRetries \<Longrightarrow> \<forall>k. attempt \<le> k \<and> k < maxRetries \<longrightarrow> reload k \<noteq> None \<Longrightarrow>
   retry_loop reload maxRetries attempt tr =
     (Inl (Error (''Rate limit recovery failed after '' @ show_nat maxRetries @ '' attempts'')),
      tr @ concat (map (\<lambda>k. [Sleep ((int k + 1) * 30000), Reload]) [attempt..<maxRetries]))"
proof (induction reload maxRetries attempt tr rule: retry_loop.induct)
  case (1 reload maxRetries attempt tr)
  from "1.prems" obtain m where m: "reload attempt = Some m" by auto
  show ?case
  proof (cases "attempt = maxRetries - 1")
    case True
    then have "[attempt..<maxRetries] = [attempt]"
      using "1.prems"(1) by (simp add: upt_last_attempt)
    then show ?thesis using True m "1.prems"(1)
      by (subst retry_loop.simps) (simp add: Let_def)
  next
    case False
    then have lt: "attempt + 1 < maxRetries" using "1.prems"(1) by arith
    have ih: "retry_loop reload maxRetries (attempt + 1)
                (tr @ [Sleep ((int attempt + 1) * 30000), Reload]) =
      (Inl (Error (''Rate limit recovery failed after '' @ show_nat maxRetries @ '' attempts'')),
       (tr @ [Sleep ((int attempt + 1) * 30000), Reload]) @
       concat (map (\<lambda>k. [Sleep ((int k + 1) * 30000), Reload]) [attempt + 1..<maxRetries]))"
      using "1.IH"[OF "1.prems"(1) refl refl m False lt] "1.prems"(2) by simp
    have up: "[attempt..<maxRetries] = attempt # [attempt + 1..<maxRetries]"
      using "1.prems"(1) by (simp add: upt_rec)
    show ?thesis using False m "1.prems"(1) ih up
      by (subst retry_loop.simps) (simp add: Let_def)
  qed
qed

lemma retry_loop_recovers:
  "attempt \<le> k \<Longrightarrow> k < maxRetries \<Longrightarrow> reload k = None \<Longrightarrow>
   \<forall>j. attempt \<le> j \<and> j < k \<longrightarrow> reload j \<noteq> None \<Longrightarrow>
   retry_loop reload maxRetries attempt tr =
     (Inr True, tr @ concat (map (\<lambda>k. [Sleep ((int k + 1) * 30000), Reload]) [attempt..<Suc k]))"
proof (induction reload maxRetries attempt tr rule: retry_loop.induct)
  case (1 reload maxRetries attempt tr)
  have lt: "attempt < maxRetries" using "1.prems" by arith
  show ?case
  proof (cases "attempt = k")
    case True
    then show ?thesis using "1.prems" lt
      by (subst retry_loop.simps) (simp add: Let_def)
  next
    case False
    then have ak: "attempt + 1 \<le> k" using "1.prems"(1) by arith
    from False "1.prems" obtain m where m: "reload attempt = Some m" by auto
    have nl: "attempt \<noteq> maxRetries - 1" using ak "1.prems"(2) by arith
    have ih: "retry_loop reload maxRetries (attempt + 1)
                (tr @ [Sleep ((int attempt + 1) * 30000), Reload]) =
      (Inr True, (tr @ [Sleep ((int attempt + 1) * 30000), Reload]) @
       concat (map (\<lambda>k. [Sleep ((int k + 1) * 30000), Reload]) [attempt + 1..<Suc k]))"
      using "1.IH"[OF lt refl refl m nl ak "1.prems"(2,3)] "1.prems"(4) by simp
    have up: "[attempt..<Suc k] = attempt # [attempt + 1..<Suc k]"
      using "1.prems"(1) by (simp add: upt_rec)
    show ?thesis using m nl lt ih up
      by (subst retry_loop.simps) (simp add: Let_def)
  qed
qed

lemma waitWithBackoff_delay_capped: "waitWithBackoff_delay baseDelay attempt \<le> 60000"
  by (simp add: waitWithBackoff_delay_def)

text \<open>
  C7 (as stated). The claim has the recovery wait \<open>min (base * 2 ^ attempt) cap\<close>, the
  formula of \<^verbatim>\<open>waitWithBackoff\<close>. The recovery does not call that function: it sleeps
  \<^verbatim>\<open>(attempt + 1) * 30000\<close>. When all three reloads of the default budget fail, the
  sleeps are 30000, 60000 and 90000 milliseconds, where \<^verbatim>\<open>waitWithBackoff\<close> with the
  base 30000 of the first sleep gives 30000, 60000 and 60000. With a budget of four
  attempts the sleeps are 30000, 60000, 90000 and 120000, which no base and cap produce.
\<close>

theorem handleRateLimitError_waits_not_exponential:
  "snd (handleRateLimitError (\<lambda>k. Some ''Navigation timeout'') (Error ''HTTP 429'') 3) =
     [Sleep 30000, Reload, Sleep 60000, Reload, Sleep 90000, Reload] \<and>
   map (waitWithBackoff_delay 30000) [0, 1, 2] = [30000, 60000, 60000] \<and>
   snd (handleRateLimitError (\<lambda>k. Some ''Navigation timeout'') (Error ''HTTP 429'') 4) =
     [Sleep 30000, Reload, Sleep 60000, Reload, Sleep 90000, Reload, Sleep 120000, Reload] \<and>
   \<not> (\<exists>base cap. map (\<lambda>k. min (base * 2 ^ k) cap) [0, 1, 2, 3] =
                     [30000, 60000, 90000, 120000 :: int])"
proof -
  have a: "snd (handleRateLimitError (\<lambda>k. Some ''Navigation timeout'') (Error ''HTTP 429'') 3) =
     [Sleep 30000, Reload, Sleep 60000, Reload, Sleep 90000, Reload]"
    by (simp add: handleRateLimitError_def is_throttling_signal_def message_of_def Let_def)
  have b: "map (waitWithBackoff_delay 30000) [0, 1, 2] = [30000, 60000, 60000]"
    by (simp add: waitWithBackoff_delay_def)
  have c: "snd (handleRateLimitError (\<lambda>k. Some ''Navigation timeout'') (Error ''HTTP 429'') 4) =
     [Sleep 30000, Reload, Sleep 60000, Reload, Sleep 90000, Reload, Sleep 120000, Reload]"
    by (simp add: handleRateLimitError_def is_throttling_signal_def message_of_def Let_def)
  have d: "\<not> (\<exists>base cap. map (\<lambda>k. min (base * 2 ^ k) cap) [0, 1, 2, 3] =
                     [30000, 60000, 90000, 120000 :: int])"
    by (auto simp: min_def split: if_splits)
  show ?thesis using a b c d by blast
qed

text \<open>
  C7 (amended). On an error whose message contains \<^verbatim>\<open>429\<close> or \<^verbatim>\<open>Too Many Requests\<close>,
  with a retry budget of at least one attempt: attempt \<open>k\<close> (from 0) sleeps
  \<open>(k + 1) * 30000\<close> milliseconds and then reloads the page; the first reload that
  succeeds ends the recovery with the result \<^verbatim>\<open>true\<close>; when every reload of the budget
  fails, the recovery has slept and reloaded exactly \<open>maxRetries\<close> times and throws
  the error \<^verbatim>\<open>Rate limit recovery failed after N attempts\<close>.
\<close>

theorem handleRateLimitError_linear_backoff:
  assumes "is_throttling_signal e" and "0 < maxRetries"
  shows "((\<forall>k<maxRetries. reload k \<noteq> None) \<longrightarrow>
            handleRateLimitError reload e maxRetries =
              (Inl (Error (''Rate limit recovery failed after '' @ show_nat maxRetries
                            @ '' attempts'')), recovery_trace maxRetries)) \<and>
         (\<forall>k<maxRetries. reload k = None \<and> (\<forall>j<k. reload j \<noteq> None) \<longrightarrow>
            handleRateLimitError reload e maxRetries = (Inr True, recovery_trace (Suc k)))"
proof (intro conjI impI allI)
  assume "\<forall>k<maxRetries. reload k \<noteq> None"
  then show "handleRateLimitError reload e maxRetries =
              (Inl (Error (''Rate limit recovery failed after '' @ show_nat maxRetries
                            @ '' attempts'')), recovery_trace maxRetries)"
    using assms retry_loop_all_fail[of 0 maxRetries reload "[]"]
    by (simp add: handleRateLimitError_def recovery_trace_def)
next
  fix k assume "k < maxRetries" "reload k = None \<and> (\<forall>j<k. reload j \<noteq> None)"
  then show "handleRateLimitError reload e maxRetries = (Inr True, recovery_trace (Suc k))"
    using assms retry_loop_recovers[of 0 k maxRetries reload "[]"]
    by (simp add: handleRateLimitError_def recovery_trace_def)
qed

theorem handleRateLimitError_linear_backoff_witness:
  "is_throttling_signal (Error ''HTTP 429'') \<and> (0::nat) < 3 \<and>
   handleRateLimitError (\<lambda>k. Some ''Navigation timeout'') (Error ''HTTP 429'') 3 =
     (Inl (Error ''Rate limit recovery failed after 3 attempts''),
      [Sleep 30000, Reload, Sleep 60000, Reload, Sleep 90000, Reload]) \<and>
   handleRateLimitError (\<lambda>k. if k = 1 then None else Some ''Navigation timeout'') (Error ''HTTP 429'') 3 =
     (Inr True, [Sleep 30000, Reload, Sleep 60000, Reload])"
proof -
  have s: "is_throttling_signal (Error ''HTTP 429'')"
    by (simp add: is_throttling_signal_def message_of_def)
  have p: "(0::nat) < 3" by simp
  have t3: "recovery_trace 3 = [Sleep 30000, Reload, Sleep 60000, Reload, Sleep 90000, Reload]"
    by (simp add: recovery_trace_def upt_rec)
  have t2: "recovery_trace (Suc 1) = [Sleep 30000, Reload, Sleep 60000, Reload]"
    by (simp add: recovery_trace_def upt_rec)
  note a = handleRateLimitError_linear_backoff[OF s p, of "\<lambda>k. Some ''Navigation timeout''"]
  note b = handleRateLimitError_linear_backoff[OF s p, of "\<lambda>k. if k = 1 then None else Some ''Navigation timeout''"]
  have f: "handleRateLimitError (\<lambda>k. Some ''Navigation timeout'') (Error ''HTTP 429'') 3 =
     (Inl (Error ''Rate limit recovery failed after 3 attempts''),
      [Sleep 30000, Reload, Sleep 60000, Reload, Sleep 90000, Reload])"
    using a t3 by (simp add: digit_char_def)
  have g: "handleRateLimitError (\<lambda>k. if k = 1 then None else Some ''Navigation timeout'') (Error ''HTTP 429'') 3 =
     (Inr True, [Sleep 30000, Reload, Sleep 60000, Reload])"
    using b[THEN conjunct2, rule_format, of 1] t2 by simp
  show ?thesis using s p f g by simp
qed

section \<open>Properties of the sort\<close>

lemma mset_insert_by: "mset (insert_by cmp x ys) = add_mset x (mset ys)"
  by (induction ys) auto

lemma mset_array_sort: "mset (array_sort cmp xs) = mset xs"
  by (induction xs) (auto simp: mset_insert_by)

lemma set_array_sort: "set (array_sort cmp xs) = set xs"
  by (metis mset_array_sort set_mset_mset)

lemma length_array_sort: "length (array_sort cmp xs) = length xs"
  by (metis mset_array_sort size_mset)

lemma set_insert_by: "set (insert_by cmp x ys) = insert x (set ys)"
  by (metis mset_insert_by set_mset_add_mset_insert set_mset_mset)

lemma desc_insert_by:
  assumes c: "\<And>a b. cmp a b \<le> 0 \<longleftrightarrow> key b \<le> key a"
  shows "desc_by key ys \<Longrightarrow> desc_by key (insert_by cmp x ys)"
proof (induction ys)
  case Nil
  then show ?case by (simp add: desc_by_def)
next
  case (Cons y ys)
  show ?case
  proof (cases "cmp x y \<le> 0")
    case True
    then have "key y \<le> key x" using c by simp
    then show ?thesis using True Cons.prems by (auto simp: desc_by_def)
  next
    case False
    then have "key x \<le> key y" using c[of x y] by simp
    then show ?thesis using False Cons by (auto simp: desc_by_def set_insert_by)
  qed
qed

lemma desc_array_sort:
  assumes c: "\<And>a b. cmp a b \<le> 0 \<longleftrightarrow> key b \<le> key a"
  shows "desc_by key (array_sort cmp xs)"
proof (induction xs)
  case Nil
  then show ?case by (simp add: desc_by_def)
next
  case (Cons x xs)
  then show ?case using desc_insert_by[OF c] by simp
qed

lemma filter_insert_by_stable:
  assumes c: "\<And>a b. cmp a b \<le> 0 \<longleftrightarrow> key b \<le> key a"
  shows "desc_by key ys \<Longrightarrow>
         filter (\<lambda>p. key p = k) (insert_by cmp x ys) =
         (if key x = k then x # filter (\<lambda>p. key p = k) ys else filter (\<lambda>p. key p = k) ys)"
proof (induction ys)
  case Nil
  then show ?case by simp
next
  case (Cons y ys)
  have d: "desc_by key ys" using Cons.prems by (simp add: desc_by_def)
  show ?case
  proof (cases "cmp x y \<le> 0")
    case True
    then show ?thesis by simp
  next
    case False
    then have "key x < key y" using c[of x y] by simp
    then show ?thesis using False Cons.IH[OF d] by auto
  qed
qed

lemma array_sort_stable:
  assumes c: "\<And>a b. cmp a b \<le> 0 \<longleftrightarrow> key b \<le> (key a :: int)"
  shows "filter (\<lambda>p. key p = k) (array_sort cmp xs) = filter (\<lambda>p. key p = k) xs"
proof (induction xs)
  case Nil
  then show ?case by simp
next
  case (Cons x xs)
  show ?case
    using filter_insert_by_stable[OF c desc_array_sort[OF c], where k = k and x = x and xs1 = xs]
      Cons.IH by simp
qed

lemma array_sort_sorted_id:
  assumes c: "\<And>a b. cmp a b \<le> 0 \<longleftrightarrow> key b \<le> key a"
  shows "desc_by key xs \<Longrightarrow> array_sort cmp xs = xs"
proof (induction xs)
  case Nil
  then show ?case by simp
next
  case (Cons x xs)
  then have ih: "array_sort cmp xs = xs" by (simp add: desc_by_def)
  show ?case
  proof (cases xs)
    case Nil
    then show ?thesis by simp
  next
    case (Cons y ys)
    then have "key y \<le> key x" using Cons.prems by (simp add: desc_by_def)
    then have "cmp x y \<le> 0" using c by simp
    then show ?thesis using ih Cons by simp
  qed
qed

lemma array_sort_cong:
  "(\<And>a b. a \<in> set xs \<Longrightarrow> b \<in> set xs \<Longrightarrow> cmp a b = cmp' a b) \<Longrightarrow>
   array_sort cmp xs = array_sort cmp' xs"
proof (induction xs)
  case Nil
  then show ?case by simp
next
  case (Cons x xs)
  have ih: "array_sort cmp xs = array_sort cmp' xs" using Cons by simp
  have "\<And>ys. set ys \<subseteq> set xs \<Longrightarrow> insert_by cmp x ys = insert_by cmp' x ys"
  proof -
    fix ys show "set ys \<subseteq> set xs \<Longrightarrow> insert_by cmp x ys = insert_by cmp' x ys"
      using Cons.prems by (induction ys) auto
  qed
  then show ?case using ih by (simp add: set_array_sort)
qed

lemma filter_cmp_key: "filter_cmp a b \<le> 0 \<longleftrightarrow> filter_score b \<le> filter_score a"
  by (simp add: filter_cmp_def)

section \<open>Properties of the Filter/RankEngine\<close>

lemma filter_throwing_Inr:
  "filter_throwing f xs = Inr ys \<Longrightarrow> ys = filter (\<lambda>x. f x = Inr True) xs"
proof (induction xs arbitrary: ys)
  case Nil
  then show ?case by simp
next
  case (Cons x xs)
  then show ?case by (auto split: sum.splits if_splits)
qed

lemma filter_throwing_all_kept:
  "\<forall>x\<in>set xs. f x = Inr True \<Longrightarrow> filter_throwing f xs = Inr xs"
  by (induction xs) auto

lemma not_excluded_iff:
  "map_sum id Not (isExcludedPost t) = Inr True \<longleftrightarrow> isExcludedPost t = Inr False"
  by (cases "isExcludedPost t") auto

lemma filterPosts_Inr_survivors:
  assumes "filterPosts posts opts = Inr ranked"
  shows "ranked = array_sort filter_cmp (filter (survives opts) posts)"
proof (cases "excludeJobPosts_of opts")
  case True
  from assms True obtain kept where
    k: "filter_throwing (\<lambda>p. map_sum id Not (isExcludedPost (or_str (ptext p) (content p))))
          (filter (meets_threshold (minReactions_of opts)) posts) = Inr kept"
    and r: "ranked = array_sort filter_cmp (filter long_enough kept)"
    by (auto simp: filterPosts_def Let_def split: sum.splits)
  have "filter long_enough kept = filter (survives opts) posts"
    using filter_throwing_Inr[OF k] True
    by (auto simp: survives_def not_excluded_iff intro: filter_cong)
  then show ?thesis using r by simp
next
  case False
  then have "ranked = array_sort filter_cmp
               (filter long_enough (filter (meets_threshold (minReactions_of opts)) posts))"
    using assms by (simp add: filterPosts_def Let_def)
  moreover have "filter long_enough (filter (meets_threshold (minReactions_of opts)) posts)
                 = filter (survives opts) posts"
    using False by (auto simp: survives_def intro: filter_cong)
  ultimately show ?thesis by simp
qed

lemma filterPosts_of_survivors:
  assumes "\<forall>p\<in>set ys. survives opts p"
  shows "filterPosts ys opts = Inr (array_sort filter_cmp ys)"
proof -
  have m: "filter (meets_threshold (minReactions_of opts)) ys = ys"
    using assms by (simp add: survives_def)
  have l: "filter long_enough ys = ys"
    using assms by (simp add: survives_def)
  show ?thesis
  proof (cases "excludeJobPosts_of opts")
    case True
    have "\<forall>p\<in>set ys. map_sum id Not (isExcludedPost (or_str (ptext p) (content p))) = Inr True"
      using assms True by (simp add: survives_def not_excluded_iff)
    then have "filter_throwing (\<lambda>p. map_sum id Not (isExcludedPost (or_str (ptext p) (content p)))) ys
               = Inr ys"
      by (rule filter_throwing_all_kept)
    then show ?thesis using True m l by (simp add: filterPosts_def Let_def)
  next
    case False
    then show ?thesis using m l by (simp add: filterPosts_def Let_def)
  qed
qed

lemma filterPosts_idempotent:
  assumes "filterPosts posts opts = Inr ranked"
  shows "filterPosts ranked opts = Inr ranked"
proof -
  have r: "ranked = array_sort filter_cmp (filter (survives opts) posts)"
    using assms by (rule filterPosts_Inr_survivors)
  then have "\<forall>p\<in>set ranked. survives opts p"
    by (simp add: set_array_sort)
  then have "filterPosts ranked opts = Inr (array_sort filter_cmp ranked)"
    by (rule filterPosts_of_survivors)
  moreover have "desc_by filter_score ranked"
    unfolding r by (rule desc_array_sort) (rule filter_cmp_key)
  then have "array_sort filter_cmp ranked = ranked"
    by (rule array_sort_sorted_id[rotated]) (rule filter_cmp_key)
  ultimately show ?thesis by simp
qed

lemma filterPosts_h_spec:
  assumes "posts < length h" and "filterPosts_h posts opts h = (r, h')"
  shows "take (length h) h' = h \<and> length h \<le> length h' \<and>
         (case r of
            Inl e \<Rightarrow> filterPosts (h ! posts) opts = Inl e
          | Inr a \<Rightarrow> length h \<le> a \<and> a < length h' \<and> filterPosts (h ! posts) opts = Inr (h' ! a))"
  using assms
  by (auto simp: filterPosts_h_def filterPosts_def alloc_def sort_in_place_def Let_def nth_append
           split: sum.splits if_splits prod.splits)

lemma desc_by_take_drop:
  "desc_by key xs \<Longrightarrow> \<forall>a\<in>set (take n xs). \<forall>b\<in>set (drop n xs). key b \<le> key a"
proof -
  assume "desc_by key xs"
  then have "sorted_wrt (\<lambda>a b. key b \<le> key a) (take n xs @ drop n xs)"
    unfolding append_take_drop_id desc_by_def .
  then show ?thesis unfolding sorted_wrt_append by blast
qed

lemma rank_cmp_numeric:
  "reactions a \<noteq> None \<Longrightarrow> comments a \<noteq> None \<Longrightarrow> reactions b \<noteq> None \<Longrightarrow> comments b \<noteq> None \<Longrightarrow>
   rank_cmp a b = filter_cmp a b"
  by (auto simp: rank_cmp_def rank_score_def filter_cmp_def filter_score_def or_zero_def)

lemma rankPosts_numeric:
  "\<forall>p\<in>set xs. reactions p \<noteq> None \<and> comments p \<noteq> None \<Longrightarrow>
   rankPosts xs = array_sort filter_cmp xs"
  unfolding rankPosts_def by (rule array_sort_cong) (simp add: rank_cmp_numeric)

lemma rankPosts_h_sorts_its_argument:
  "posts < length h \<Longrightarrow>
   rankPosts_h posts h = (posts, h') \<Longrightarrow> h' ! posts = rankPosts (h ! posts)"
  by (auto simp: rankPosts_h_def sort_in_place_def rankPosts_def)

text \<open>
  C8. \<^verbatim>\<open>filterPosts(posts, options)\<close>, run on any store of arrays and any options,
  leaves the array it is given, and every other array that existed, as it was (also
  when it throws); and when it returns an array, running it on that array returns an
  array with the same contents, again without changing its input. The in-place
  \<^verbatim>\<open>sort\<close> only ever rewrites an array that the function has allocated itself.
\<close>

theorem filterPosts_unmodified_input_idempotent:
  assumes "posts < length h" and "filterPosts_h posts opts h = (r, h')"
  shows "(\<forall>a<length h. h' ! a = h ! a) \<and>
         (\<forall>out. r = Inr out \<longrightarrow>
            (\<exists>out2 h2. filterPosts_h out opts h' = (Inr out2, h2) \<and> h2 ! out2 = h' ! out \<and>
                        (\<forall>a<length h'. h2 ! a = h' ! a)))"
proof (intro conjI allI impI)
  note s = filterPosts_h_spec[OF assms]
  fix a assume "a < length h"
  then have "take (length h) h' ! a = h' ! a" by simp
  then show "h' ! a = h ! a" using s by simp
next
  note s = filterPosts_h_spec[OF assms]
  fix out assume r: "r = Inr out"
  then have o: "out < length h'" and f: "filterPosts (h ! posts) opts = Inr (h' ! out)"
    using s by simp_all
  have i: "filterPosts (h' ! out) opts = Inr (h' ! out)"
    using f by (rule filterPosts_idempotent)
  obtain r2 h2 where e: "filterPosts_h out opts h' = (r2, h2)"
    by (cases "filterPosts_h out opts h'")
  note s2 = filterPosts_h_spec[OF o e]
  from s2 i obtain out2 where r2: "r2 = Inr out2" and c: "h2 ! out2 = h' ! out"
    by (cases r2) auto
  have "\<forall>a<length h'. h2 ! a = h' ! a"
  proof (intro allI impI)
    fix a assume "a < length h'"
    then have "take (length h') h2 ! a = h2 ! a" by simp
    then show "h2 ! a = h' ! a" using s2 by simp
  qed
  then show "\<exists>out2 h2. filterPosts_h out opts h' = (Inr out2, h2) \<and> h2 ! out2 = h' ! out \<and>
                        (\<forall>a<length h'. h2 ! a = h' ! a)"
    using e r2 c by blast
qed

theorem filterPosts_unmodified_input_idempotent_witness:
  "let p1 = \<lparr>postUrl = ''u1'', ptext = Some ''Building reliable data pipelines at scale'',
             content = None, reactions = Some 12, comments = Some 3, keyword = ''AI''\<rparr>;
       p2 = \<lparr>postUrl = ''u2'', ptext = Some ''We are Hiring engineers for the platform team'',
             content = None, reactions = Some 40, comments = Some 9, keyword = ''AI''\<rparr>;
       p3 = \<lparr>postUrl = ''u3'', ptext = None,
             content = Some ''Lessons from a decade of distributed systems'',
             reactions = Some 20, comments = None, keyword = ''Startup''\<rparr>;
       opts = \<lparr>minReactions = None, excludeJobPosts = None\<rparr>;
       h = [[p1, p2, p3]];
       h' = [[p1, p2, p3], [p1, p2, p3], [p1, p2, p3], [p1, p3], [p3, p1]]
   in 0 < length h \<and> filterPosts_h 0 opts h = (Inr 4, h') \<and>
      (\<forall>a<length h. h' ! a = h ! a) \<and>
      (\<exists>out2 h2. filterPosts_h 4 opts h' = (Inr out2, h2) \<and> h2 ! out2 = h' ! 4 \<and>
                  (\<forall>a<length h'. h2 ! a = h' ! a))"
proof -
  let ?p1 = "\<lparr>postUrl = ''u1'', ptext = Some ''Building reliable data pipelines at scale'',
             content = None, reactions = Some 12, comments = Some 3, keyword = ''AI''\<rparr>"
  let ?p2 = "\<lparr>postUrl = ''u2'', ptext = Some ''We are Hiring engineers for the platform team'',
             content = None, reactions = Some 40, comments = Some 9, keyword = ''AI''\<rparr>"
  let ?p3 = "\<lparr>postUrl = ''u3'', ptext = None,
             content = Some ''Lessons from a decade of distributed systems'',
             reactions = Some 20, comments = None, keyword = ''Startup''\<rparr>"
  let ?opts = "\<lparr>minReactions = None, excludeJobPosts = None\<rparr>"
  let ?h = "[[?p1, ?p2, ?p3]]"
  let ?h' = "[[?p1, ?p2, ?p3], [?p1, ?p2, ?p3], [?p1, ?p2, ?p3], [?p1, ?p3], [?p3, ?p1]]"
  have l: "0 < length ?h" by simp
  have e: "filterPosts_h 0 ?opts ?h = (Inr 4, ?h')" by code_simp
  show ?thesis
    unfolding Let_def
    using l e filterPosts_unmodified_input_idempotent[OF l e] by simp
qed

lemma selected_for_action_take: "selected_for_action xs n = take n xs"
  by (simp add: selected_for_action_def min_def)

text \<open>
  C9. The candidates a worker acts on are the first \<open>maxComments\<close> elements of the
  ranked list, and the ranked list is the stable descending sort of the surviving
  candidates by \<^verbatim>\<open>reactions + comments\<close>: it has the same elements as the survivors,
  no element is followed by one with a larger score, and the candidates of any one score
  stand in the order in which they were discovered; so every selected candidate scores at
  least as much as every candidate left out. In commentWorker.js the survivors are the
  posts that pass the filters of \<^verbatim>\<open>filterPosts\<close>; in linkedPostRefinementWorker.js
  they are the scraped posts not yet commented (the scraper gives every post both
  counters).
\<close>

theorem selected_candidates_top_n_stable:
  assumes "filterPosts posts opts = Inr filteredPosts"
      and "\<forall>p\<in>set scrapedPosts. reactions p \<noteq> None \<and> comments p \<noteq> None"
  shows "(mset filteredPosts = mset (filter (survives opts) posts) \<and>
          desc_by filter_score filteredPosts \<and>
          (\<forall>k. filter (\<lambda>p. filter_score p = k) filteredPosts =
               filter (\<lambda>p. filter_score p = k) (filter (survives opts) posts)) \<and>
          selected_for_action filteredPosts n = take n filteredPosts \<and>
          (\<forall>a\<in>set (selected_for_action filteredPosts n).
             \<forall>b\<in>set (drop n filteredPosts). filter_score b \<le> filter_score a)) \<and>
         (mset (rankPosts (availablePosts urls scrapedPosts)) = mset (availablePosts urls scrapedPosts) \<and>
          desc_by filter_score (rankPosts (availablePosts urls scrapedPosts)) \<and>
          (\<forall>k. filter (\<lambda>p. filter_score p = k) (rankPosts (availablePosts urls scrapedPosts)) =
               filter (\<lambda>p. filter_score p = k) (availablePosts urls scrapedPosts)) \<and>
          (\<forall>a\<in>set (postsForCommenting (rankPosts (availablePosts urls scrapedPosts)) n).
             \<forall>b\<in>set (drop n (rankPosts (availablePosts urls scrapedPosts))).
               filter_score b \<le> filter_score a))"
proof -
  have r: "filteredPosts = array_sort filter_cmp (filter (survives opts) posts)"
    using assms(1) by (rule filterPosts_Inr_survivors)
  have d: "desc_by filter_score filteredPosts"
    unfolding r by (rule desc_array_sort) (rule filter_cmp_key)
  have m: "mset filteredPosts = mset (filter (survives opts) posts)"
    unfolding r by (rule mset_array_sort)
  have s: "\<forall>k. filter (\<lambda>p. filter_score p = k) filteredPosts =
               filter (\<lambda>p. filter_score p = k) (filter (survives opts) posts)"
    unfolding r using array_sort_stable[of filter_cmp filter_score] filter_cmp_key by blast
  have t: "\<forall>a\<in>set (selected_for_action filteredPosts n).
             \<forall>b\<in>set (drop n filteredPosts). filter_score b \<le> filter_score a"
    unfolding selected_for_action_take using d by (rule desc_by_take_drop)
  have "\<forall>p\<in>set (availablePosts urls scrapedPosts). reactions p \<noteq> None \<and> comments p \<noteq> None"
    using assms(2) by (simp add: availablePosts_def)
  then have r': "rankPosts (availablePosts urls scrapedPosts) =
                 array_sort filter_cmp (availablePosts urls scrapedPosts)"
    by (rule rankPosts_numeric)
  have d': "desc_by filter_score (rankPosts (availablePosts urls scrapedPosts))"
    unfolding r' by (rule desc_array_sort) (rule filter_cmp_key)
  have m': "mset (rankPosts (availablePosts urls scrapedPosts)) = mset (availablePosts urls scrapedPosts)"
    unfolding r' by (rule mset_array_sort)
  have s': "\<forall>k. filter (\<lambda>p. filter_score p = k) (rankPosts (availablePosts urls scrapedPosts)) =
               filter (\<lambda>p. filter_score p = k) (availablePosts urls scrapedPosts)"
    unfolding r' using array_sort_stable[of filter_cmp filter_score] filter_cmp_key by blast
  have t': "\<forall>a\<in>set (postsForCommenting (rankPosts (availablePosts urls scrapedPosts)) n).
             \<forall>b\<in>set (drop n (rankPosts (availablePosts urls scrapedPosts))).
               filter_score b \<le> filter_score a"
    unfolding postsForCommenting_def using d' by (rule desc_by_take_drop)
  show ?thesis using m d s t m' d' s' t' selected_for_action_take by blast
qed

theorem selected_candidates_top_n_stable_witness:
  "let p1 = \<lparr>postUrl = ''u1'', ptext = Some ''Building reliable data pipelines at scale'',
             content = None, reactions = Some 12, comments = Some 3, keyword = ''AI''\<rparr>;
       p2 = \<lparr>postUrl = ''u2'', ptext = Some ''We are Hiring engineers for the platform team'',
             content = None, reactions = Some 40, comments = Some 9, keyword = ''AI''\<rparr>;
       p3 = \<lparr>postUrl = ''u3'', ptext = Some ''Lessons from a decade of distributed systems'',
             content = None, reactions = Some 20, comments = Some 1, keyword = ''Startup''\<rparr>;
       p4 = \<lparr>postUrl = ''u4'', ptext = Some ''Five things nobody tells you about startups'',
             content = None, reactions = Some 15, comments = Some 0, keyword = ''Startup''\<rparr>;
       opts = \<lparr>minReactions = None, excludeJobPosts = None\<rparr>
   in filterPosts [p1, p2, p3, p4] opts = Inr [p3, p1, p4] \<and>
      (\<forall>p\<in>set [p1, p2, p3, p4]. reactions p \<noteq> None \<and> comments p \<noteq> None) \<and>
      selected_for_action [p3, p1, p4] 2 = [p3, p1] \<and>
      desc_by filter_score [p3, p1, p4] \<and>
      postsForCommenting (rankPosts (availablePosts [''u3''] [p1, p2, p3, p4])) 2 = [p2, p1] \<and>
      desc_by filter_score (rankPosts (availablePosts [''u3''] [p1, p2, p3, p4]))"
proof -
  let ?p1 = "\<lparr>postUrl = ''u1'', ptext = Some ''Building reliable data pipelines at scale'',
             content = None, reactions = Some 12, comments = Some 3, keyword = ''AI''\<rparr>"
  let ?p2 = "\<lparr>postUrl = ''u2'', ptext = Some ''We are Hiring engineers for the platform team'',
             content = None, reactions = Some 40, comments = Some 9, keyword = ''AI''\<rparr>"
  let ?p3 = "\<lparr>postUrl = ''u3'', ptext = Some ''Lessons from a decade of distributed systems'',
             content = None, reactions = Some 20, comments = Some 1, keyword = ''Startup''\<rparr>"
  let ?p4 = "\<lparr>postUrl = ''u4'', ptext = Some ''Five things nobody tells you about startups'',
             content = None, reactions = Some 15, comments = Some 0, keyword = ''Startup''\<rparr>"
  let ?opts = "\<lparr>minReactions = None, excludeJobPosts = None\<rparr>"
  have e: "filterPosts [?p1, ?p2, ?p3, ?p4] ?opts = Inr [?p3, ?p1, ?p4]" by code_simp
  have n: "\<forall>p\<in>set [?p1, ?p2, ?p3, ?p4]. reactions p \<noteq> None \<and> comments p \<noteq> None" by simp
  have c: "postsForCommenting (rankPosts (availablePosts [''u3''] [?p1, ?p2, ?p3, ?p4])) 2 = [?p2, ?p1]"
    by code_simp
  note t = selected_candidates_top_n_stable[OF e n, of 2 "[''u3'']"]
  have s: "selected_for_action [?p3, ?p1, ?p4] 2 = [?p3, ?p1]"
    using t by simp
  show ?thesis
    unfolding Let_def using e n c s t by blast
qed

section \<open>Properties of the job handlers\<close>

lemma update_job_jobs:
  "jobs_coll (update_job jid f w) k =
     (if k = jid
      then map_option (\<lambda>j. (f j)\<lparr>failedAttempts := failedAttempts j\<rparr>) (jobs_coll w jid)
      else jobs_coll w k)"
  by (auto simp: update_job_def split: option.splits)

lemma update_job_other:
  "posts_coll (update_job jid f w) = posts_coll w"
  "reports_coll (update_job jid f w) = reports_coll w"
  "browsers_launched (update_job jid f w) = browsers_launched w"
  "browsers_closed (update_job jid f w) = browsers_closed w"
  by (auto simp: update_job_def split: option.splits)

lemma set_progress_jobs:
  "jobs_coll (set_progress jid step pct w) k =
     (if k = jid
      then map_option (\<lambda>j. j\<lparr>currentStep := Some step, stepProgress := Some pct\<rparr>)
             (jobs_coll w jid)
      else jobs_coll w k)"
  by (cases "jobs_coll w jid") (simp_all add: set_progress_def update_job_jobs)

lemma set_progress_other:
  "posts_coll (set_progress jid step pct w) = posts_coll w"
  "reports_coll (set_progress jid step pct w) = reports_coll w"
  "browsers_launched (set_progress jid step pct w) = browsers_launched w"
  "browsers_closed (set_progress jid step pct w) = browsers_closed w"
  by (simp_all add: set_progress_def update_job_other)

lemma create_report_fields:
  "jobs_coll (create_report r w) = jobs_coll w"
  "posts_coll (create_report r w) = posts_coll w"
  "reports_coll (create_report r w) = reports_coll w @ [r]"
  "browsers_launched (create_report r w) = browsers_launched w"
  "browsers_closed (create_report r w) = browsers_closed w"
  by (simp_all add: create_report_def)

lemma findById_status:
  "jobs_coll w jid = Some j \<Longrightarrow> findById jid w = Some (declared_only j)"
  "status (declared_only j) = status j"
  "completedAt (declared_only j) = completedAt j"
  "failedAttempts (declared_only j) = None"
  by (simp_all add: findById_def declared_only_def)

lemmas world_simps = update_job_jobs update_job_other set_progress_jobs set_progress_other
  create_report_fields

lemma commentWorker_act_loop_all_fail:
  "\<forall>p\<in>set ps. (case generateAIComment e p of Inl err \<Rightarrow> True
                  | Inr c \<Rightarrow> postCommentOnPost e p c \<noteq> None) \<Longrightarrow>
   commentWorker_act_loop e ps (c, f, w) = (c, f + length ps, w)"
proof (induction ps arbitrary: f)
  case Nil
  then show ?case by simp
next
  case (Cons p ps)
  then show ?case by (auto split: sum.splits option.splits)
qed


text \<open>
  C1. When the job's stored status is already \<^verbatim>\<open>active\<close>, the handler of
  commentWorker.js and the handler of linkedPostRefinementWorker.js both return a result
  with \<^verbatim>\<open>success: false\<close> and the message \<^verbatim>\<open>Job already being processed\<close>, and
  leave the job, the posts, the session reports and the browser counters exactly as they
  were.
\<close>

theorem active_job_skipped_unchanged:
  assumes "jobs_coll w (jobId jd) = Some j" and "status j = Active"
  shows "commentWorker_handler e jd w =
           (Inr \<lparr>h_success = False, h_message = Some ''Job already being processed'',
                 h_commentedCount = None, h_totalPostsScraped = None\<rparr>, w) \<and>
         linkedPostRefinementWorker_handler e jd w =
           (Inr \<lparr>h_success = False, h_message = Some ''Job already being processed'',
                 h_commentedCount = None, h_totalPostsScraped = None\<rparr>, w)"
  using assms
  by (simp add: commentWorker_handler_def linkedPostRefinementWorker_handler_def skipped_def
        findById_status)

theorem active_job_skipped_unchanged_witness:
  "let j = \<lparr>status = Active, startedAt = Some 1000, completedAt = None, result = None,
            error = None, currentStep = Some ''Starting'', stepProgress = Some 10,
            failedAttempts = None\<rparr>;
       w = \<lparr>jobs_coll = [''job1'' \<mapsto> j], posts_coll = [], reports_coll = [],
            browsers_launched = 0, browsers_closed = 0\<rparr>;
       jd = \<lparr>jobId = ''job1'', userId = ''user1'', job_keywords = [''AI''], maxComments = 5,
             options = \<lparr>minReactions = None, excludeJobPosts = None\<rparr>\<rparr>;
       e = \<lparr>date_now = 5000, hasValidLinkedInCookies = True, loadLinkedInCookies = Inr True,
            launch = None, page_setup = None, login_ok = True, scrape = Inr ([], 0),
            generateAIComment = (\<lambda>p. Inr ''Great post''),
            postCommentOnPost = (\<lambda>p c. None), comment_on_page = (\<lambda>p. Submitted)\<rparr>
   in jobs_coll w (jobId jd) = Some j \<and> status j = Active \<and>
      fst (commentWorker_handler e jd w) =
        Inr \<lparr>h_success = False, h_message = Some ''Job already being processed'',
              h_commentedCount = None, h_totalPostsScraped = None\<rparr> \<and>
      snd (commentWorker_handler e jd w) = w \<and>
      snd (linkedPostRefinementWorker_handler e jd w) = w"
proof -
  let ?j = "\<lparr>status = Active, startedAt = Some 1000, completedAt = None, result = None,
            error = None, currentStep = Some ''Starting'', stepProgress = Some 10,
            failedAttempts = None\<rparr>"
  let ?w = "\<lparr>jobs_coll = [''job1'' \<mapsto> ?j], posts_coll = [], reports_coll = [],
            browsers_launched = 0, browsers_closed = 0\<rparr>"
  let ?jd = "\<lparr>jobId = ''job1'', userId = ''user1'', job_keywords = [''AI''], maxComments = 5,
             options = \<lparr>minReactions = None, excludeJobPosts = None\<rparr>\<rparr>"
  let ?e = "\<lparr>date_now = 5000, hasValidLinkedInCookies = True, loadLinkedInCookies = Inr True,
            launch = None, page_setup = None, login_ok = True, scrape = Inr ([], 0),
            generateAIComment = (\<lambda>p. Inr ''Great post''),
            postCommentOnPost = (\<lambda>p c. None), comment_on_page = (\<lambda>p. Submitted)\<rparr>"
  have a: "jobs_coll ?w (jobId ?jd) = Some ?j" by simp
  have b: "status ?j = Active" by simp
  show ?thesis
    unfolding Let_def
    using a b active_job_skipped_unchanged[OF a b, of ?e] by simp
qed

lemma refinement_cooldown_guard:
  assumes "jobs_coll w (jobId jd) = Some j" and "status j = Completed"
      and "completedAt j = Some t" and "date_now e - t < 5 * 60 * 1000"
  shows "linkedPostRefinementWorker_handler e jd w =
           (Inr \<lparr>h_success = False, h_message = Some ''Job completed recently'',
                 h_commentedCount = None, h_totalPostsScraped = None\<rparr>, w)"
  using assms
  by (simp add: linkedPostRefinementWorker_handler_def skipped_def Let_def findById_status)

lemma index_insert_ordered_prefix:
  "\<exists>added. snd (index_insert_ordered ds store) = store @ added"
proof (induction ds arbitrary: store)
  case Nil
  then show ?case by simp
next
  case (Cons d ds)
  show ?case
  proof (cases "doc_key d \<in> set (map doc_key store)")
    case True
    then show ?thesis by simp
  next
    case False
    from Cons[of "store @ [d]"] obtain added where
      "snd (index_insert_ordered ds (store @ [d])) = (store @ [d]) @ added" by blast
    then show ?thesis using False by simp
  qed
qed

lemma index_insert_ordered_unique:
  "unique_posts store \<Longrightarrow> unique_posts (snd (index_insert_ordered ds store))"
proof (induction ds arbitrary: store)
  case Nil
  then show ?case by simp
next
  case (Cons d ds)
  show ?case
  proof (cases "doc_key d \<in> set (map doc_key store)")
    case True
    then show ?thesis using Cons.prems by simp
  next
    case False
    then have "unique_posts (store @ [d])"
      using Cons.prems by (auto simp: unique_posts_def)
    then show ?thesis using False Cons.IH by simp
  qed
qed

lemma index_insert_unordered_unique:
  "unique_posts store \<Longrightarrow> unique_posts (snd (index_insert_unordered ds store))"
proof (induction ds arbitrary: store)
  case Nil
  then show ?case by simp
next
  case (Cons d ds)
  show ?case
  proof (cases "doc_key d \<in> set (map doc_key store)")
    case True
    then show ?thesis using Cons by simp
  next
    case False
    then have "unique_posts (store @ [d])"
      using Cons.prems by (auto simp: unique_posts_def)
    then show ?thesis using False Cons.IH by simp
  qed
qed

lemma index_insert_unordered_keys:
  "set (map doc_key (snd (index_insert_unordered ds store))) =
   set (map doc_key store) \<union> set (map doc_key ds)"
proof (induction ds arbitrary: store)
  case Nil
  then show ?case by simp
next
  case (Cons d ds)
  show ?case
  proof (cases "doc_key d \<in> set (map doc_key store)")
    case True
    then show ?thesis using Cons[of store] by auto
  next
    case False
    then show ?thesis using Cons[of "store @ [d]"] by auto
  qed
qed

lemma index_insert_unordered_keeps_store:
  "\<exists>added. snd (index_insert_unordered ds store) = store @ added"
proof (induction ds arbitrary: store)
  case Nil
  then show ?case by simp
next
  case (Cons d ds)
  show ?case
  proof (cases "doc_key d \<in> set (map doc_key store)")
    case True
    then show ?thesis using Cons[of store] by simp
  next
    case False
    from Cons[of "store @ [d]"] obtain added where
      "snd (index_insert_unordered ds (store @ [d])) = (store @ [d]) @ added" by blast
    then show ?thesis using False by simp
  qed
qed

lemma findOneAndUpdate_keys:
  "(\<And>d. doc_key (f d) = doc_key d) \<Longrightarrow>
   map doc_key (findOneAndUpdate m f store) = map doc_key store"
  by (induction store) auto

lemma index_insert_unordered_error:
  "index_insert_unordered ds st = (Some err, ps) \<Longrightarrow> err = duplicate_key"
  by (induction ds arbitrary: st) (auto split: if_splits)

lemma insertMany_ordered_unique:
  "unique_posts store \<Longrightarrow> unique_posts (snd (insertMany_ordered ds store))"
  by (simp add: insertMany_ordered_def index_insert_ordered_unique)

lemma insertMany_unordered_unique:
  "unique_posts store \<Longrightarrow> unique_posts (snd (insertMany_unordered ds store))"
  by (simp add: insertMany_unordered_def index_insert_unordered_unique)

lemma insertMany_ordered_invalid:
  "\<not> list_all valid_post_doc ds \<Longrightarrow> insertMany_ordered ds store = (Some validation_error, store)"
  by (simp add: insertMany_ordered_def)

lemma commentWorker_postToSave_invalid: "\<not> valid_post_doc (commentWorker_postToSave jd p)"
  by (simp add: valid_post_doc_def commentWorker_postToSave_def)

lemma commentWorker_insert_rejected:
  "scrapedPosts \<noteq> [] \<Longrightarrow>
   insertMany_ordered (map (commentWorker_postToSave jd) scrapedPosts) store =
     (Some validation_error, store)"
  by (cases scrapedPosts)
     (simp_all add: insertMany_ordered_def commentWorker_postToSave_invalid)

lemma refinement_save_posts_never_fails: "fst (refinement_save_posts jd scrapedPosts store) = None"
  by (auto simp: refinement_save_posts_def insertMany_unordered_def error_code_def duplicate_key_def
           split: prod.splits option.splits dest!: index_insert_unordered_error)

lemma refinement_save_posts_skips_duplicates:
  "unique_posts store \<Longrightarrow>
   fst (refinement_save_posts jd scrapedPosts store) = None \<and>
   unique_posts (snd (refinement_save_posts jd scrapedPosts store)) \<and>
   set (map doc_key (snd (refinement_save_posts jd scrapedPosts store))) =
     set (map doc_key store) \<union>
     set (map doc_key (filter valid_post_doc (map (refinement_postToInsert jd) scrapedPosts)))"
proof -
  assume u: "unique_posts store"
  have e: "snd (refinement_save_posts jd scrapedPosts store) =
           snd (insertMany_unordered (map (refinement_postToInsert jd) scrapedPosts) store)"
    by (auto simp: refinement_save_posts_def insertMany_unordered_def
             split: prod.splits option.splits)
  show ?thesis
    using refinement_save_posts_never_fails[of jd scrapedPosts store]
      insertMany_unordered_unique[OF u, of "map (refinement_postToInsert jd) scrapedPosts"]
      index_insert_unordered_keys[of "filter valid_post_doc
                                        (map (refinement_postToInsert jd) scrapedPosts)" store]
    unfolding e by (simp add: insertMany_unordered_def)
qed

lemma commentWorker_act_loop_keeps:
  "commentWorker_act_loop e ps (c, f, w) = (c', f', w') \<Longrightarrow>
   jobs_coll w' = jobs_coll w \<and> reports_coll w' = reports_coll w \<and>
   browsers_launched w' = browsers_launched w \<and> browsers_closed w' = browsers_closed w"
proof (induction ps arbitrary: c f w)
  case Nil
  then show ?case by simp
next
  case (Cons p ps)
  then show ?case by (fastforce split: sum.splits option.splits)
qed

lemma refinement_act_loop_keeps:
  "refinement_act_loop e jd ps (c, w) = (c', w') \<Longrightarrow>
   jobs_coll w' = jobs_coll w \<and> reports_coll w' = reports_coll w \<and>
   browsers_launched w' = browsers_launched w \<and> browsers_closed w' = browsers_closed w"
proof (induction ps arbitrary: c w)
  case Nil
  then show ?case by simp
next
  case (Cons p ps)
  then show ?case by (fastforce split: act_outcome.splits if_splits)
qed

lemma commentWorker_try_browser:
  "commentWorker_try e jd w = (r, w') \<Longrightarrow>
   (case r of
      Inr res \<Rightarrow> browsers_launched w' = browsers_launched w + 1 \<and>
                 browsers_closed w' = browsers_closed w + 1
    | Inl err \<Rightarrow> browsers_closed w' = browsers_closed w \<and>
                 browsers_launched w' \<le> browsers_launched w + 1)"
  unfolding commentWorker_try_def Let_def
  by (auto simp: world_simps split: sum.splits option.splits if_splits prod.splits
           dest!: commentWorker_act_loop_keeps)

lemma commentWorker_failure_never_closes:
  "commentWorker_handler e jd w = (Inl err, w') \<Longrightarrow> browsers_closed w' = browsers_closed w"
  unfolding commentWorker_handler_def
  by (auto simp: commentWorker_catch_def Let_def world_simps split: if_splits prod.splits sum.splits
           dest!: commentWorker_try_browser)

lemma commentWorker_success_closes:
  "commentWorker_handler e jd w = (Inr r, w') \<Longrightarrow> h_success r \<Longrightarrow>
   browsers_launched w' = browsers_launched w + 1 \<and> browsers_closed w' = browsers_closed w + 1"
  unfolding commentWorker_handler_def
  by (auto simp: skipped_def split: if_splits prod.splits sum.splits
           dest!: commentWorker_try_browser)

lemma refinement_try_browser:
  "refinement_try e jd w = (r, cleanup_set, w') \<Longrightarrow>
   (case r of
      Inr res \<Rightarrow> browsers_launched w' = browsers_launched w + 1 \<and>
                 browsers_closed w' = browsers_closed w + 1
    | Inl err \<Rightarrow> browsers_closed w' = browsers_closed w \<and>
                 (cleanup_set \<longrightarrow> browsers_launched w' = browsers_launched w + 1) \<and>
                 (\<not> cleanup_set \<longrightarrow>
                    (if launch e = None then browsers_launched w' = browsers_launched w + 1
                     else browsers_launched w' = browsers_launched w)))"
  unfolding refinement_try_def Let_def
  by (auto simp: world_simps split: sum.splits option.splits if_splits prod.splits
           dest!: refinement_act_loop_keeps)

lemma refinement_success_closes:
  "linkedPostRefinementWorker_handler e jd w = (Inr r, w') \<Longrightarrow> h_success r \<Longrightarrow>
   browsers_launched w' = browsers_launched w + 1 \<and> browsers_closed w' = browsers_closed w + 1"
  unfolding linkedPostRefinementWorker_handler_def Let_def
  by (auto simp: skipped_def world_simps split: if_splits prod.splits sum.splits
           dest!: refinement_try_browser)

lemma refinement_try_cleanup_set:
  "refinement_try e jd w = (Inl err, cleanup_set, w') \<Longrightarrow>
   cleanup_set = (launch e = None \<and> page_setup e = None)"
  unfolding refinement_try_def Let_def
  by (auto split: sum.splits option.splits if_splits prod.splits)

lemma refinement_failure_browser:
  assumes h: "linkedPostRefinementWorker_handler e jd w = (Inl err, w')" and l: "launch e = None"
  shows "browsers_launched w' = browsers_launched w + 1 \<and>
         browsers_closed w' = (if page_setup e = None then browsers_closed w + 1
                               else browsers_closed w)"
proof -
  let ?w1 = "update_job (jobId jd)
               (\<lambda>j. j\<lparr>status := Active, startedAt := Some (date_now e),
                       currentStep := Some ''Starting'', stepProgress := Some 10\<rparr>) w"
  obtain r c wt where t: "refinement_try e jd ?w1 = (r, c, wt)"
    by (cases "refinement_try e jd ?w1") auto
  from h t have r: "r = Inl err"
    and w': "w' = refinement_catch e jd (findById (jobId jd) w) err c wt"
    unfolding linkedPostRefinementWorker_handler_def Let_def
    by (auto simp: skipped_def split: if_splits sum.splits)
  have c: "c = (launch e = None \<and> page_setup e = None)"
    using t r refinement_try_cleanup_set by blast
  have b: "browsers_closed wt = browsers_closed ?w1 \<and>
           browsers_launched wt = browsers_launched ?w1 + 1"
    using refinement_try_browser[OF t] r c l by (auto split: if_splits)
  show ?thesis
    using b c l w' by (simp add: refinement_catch_def Let_def world_simps)
qed

lemma refinement_try_job_kept:
  "refinement_try e jd w = (r, c, wt) \<Longrightarrow>
   map_option failedAttempts (jobs_coll wt (jobId jd)) =
   map_option failedAttempts (jobs_coll w (jobId jd))"
  unfolding refinement_try_def Let_def
  by (auto simp: world_simps option.map_comp comp_def
           split: sum.splits option.splits if_splits prod.splits
           dest!: refinement_act_loop_keeps)

lemma commentWorker_try_job_kept:
  "commentWorker_try e jd w = (r, wt) \<Longrightarrow>
   map_option failedAttempts (jobs_coll wt (jobId jd)) =
   map_option failedAttempts (jobs_coll w (jobId jd))"
  unfolding commentWorker_try_def Let_def
  by (auto simp: world_simps option.map_comp comp_def
           split: sum.splits option.splits if_splits prod.splits
           dest!: commentWorker_act_loop_keeps)

lemma commentWorker_failure_no_count:
  assumes h: "commentWorker_handler e jd w = (Inl err, w')"
      and j: "jobs_coll w (jobId jd) = Some j"
  shows "\<exists>j'. jobs_coll w' (jobId jd) = Some j' \<and> status j' = Failed \<and>
              failedAttempts j' = failedAttempts j"
proof -
  obtain r wt where t: "commentWorker_try e jd w = (r, wt)"
    by (cases "commentWorker_try e jd w") auto
  from h t have w': "w' = commentWorker_catch e jd err wt"
    unfolding commentWorker_handler_def
    by (auto simp: skipped_def split: if_splits sum.splits)
  have "map_option failedAttempts (jobs_coll wt (jobId jd)) =
        map_option failedAttempts (jobs_coll w (jobId jd))"
    using t by (rule commentWorker_try_job_kept)
  then obtain jt where jt: "jobs_coll wt (jobId jd) = Some jt" "failedAttempts jt = failedAttempts j"
    using j by auto
  show ?thesis
    unfolding w' using jt by (simp add: commentWorker_catch_def Let_def world_simps)
qed

lemma refinement_failure_count_not_stored:
  assumes h: "linkedPostRefinementWorker_handler e jd w = (Inl err, w')"
      and j: "jobs_coll w (jobId jd) = Some j"
  shows "\<exists>j'. jobs_coll w' (jobId jd) = Some j' \<and> status j' = Failed \<and>
              failedAttempts j' = failedAttempts j"
proof -
  let ?w1 = "update_job (jobId jd)
               (\<lambda>j. j\<lparr>status := Active, startedAt := Some (date_now e),
                       currentStep := Some ''Starting'', stepProgress := Some 10\<rparr>) w"
  obtain r c wt where t: "refinement_try e jd ?w1 = (r, c, wt)"
    by (cases "refinement_try e jd ?w1") auto
  from h t have w': "w' = refinement_catch e jd (findById (jobId jd) w) err c wt"
    unfolding linkedPostRefinementWorker_handler_def Let_def
    by (auto simp: skipped_def split: if_splits sum.splits)
  have "map_option failedAttempts (jobs_coll wt (jobId jd)) =
        map_option failedAttempts (jobs_coll ?w1 (jobId jd))"
    using t by (rule refinement_try_job_kept)
  then obtain jt where jt: "jobs_coll wt (jobId jd) = Some jt" "failedAttempts jt = failedAttempts j"
    using j by (auto simp: world_simps)
  show ?thesis
    unfolding w' using jt by (simp add: refinement_catch_def Let_def world_simps)
qed

lemma refinement_attempt_budget_guard_never_fires:
  "fst (linkedPostRefinementWorker_handler e jd w) \<noteq>
     Inr \<lparr>h_success = False, h_message = Some ''Too many failed attempts'',
          h_commentedCount = None, h_totalPostsScraped = None\<rparr>"
proof -
  have g: "\<not> (case findById (jobId jd) w of None \<Rightarrow> False
              | Some j \<Rightarrow> status j = Failed \<and>
                  (case failedAttempts j of None \<Rightarrow> 0 | Some n \<Rightarrow> n) \<ge> 3)"
    by (auto simp: findById_def declared_only_def split: option.splits)
  obtain r c wt where t:
    "refinement_try e jd (update_job (jobId jd)
               (\<lambda>j. j\<lparr>status := Active, startedAt := Some (date_now e),
                       currentStep := Some ''Starting'', stepProgress := Some 10\<rparr>) w) = (r, c, wt)"
    using prod_cases3 by blast
  have s: "\<And>res. r = Inr res \<Longrightarrow> h_success res"
    using t unfolding refinement_try_def Let_def
    by (auto simp: finished_def split: sum.splits option.splits if_splits prod.splits)
  show ?thesis
    unfolding linkedPostRefinementWorker_handler_def Let_def
    using g t s by (auto simp: skipped_def split: sum.splits)
qed

lemma refinement_failed_delivery:
  assumes "jobs_coll w (jobId jd) = Some j" and "status j = Waiting \<or> status j = Failed"
      and "launch e = None" and "page_setup e = None" and "\<not> login_ok e"
  shows "\<exists>w' j'. linkedPostRefinementWorker_handler e jd w = (Inl invalid_cookies, w') \<and>
                 jobs_coll w' (jobId jd) = Some j' \<and> status j' = Failed \<and>
                 failedAttempts j' = failedAttempts j \<and>
                 browsers_launched w' = browsers_launched w + 1 \<and>
                 browsers_closed w' = browsers_closed w + 1 \<and>
                 length (reports_coll w') = length (reports_coll w) + 1"
  using assms
  unfolding linkedPostRefinementWorker_handler_def refinement_try_def refinement_catch_def
  by (auto simp: Let_def world_simps findById_status)

lemma commentWorker_candidates_never_acted_on:
  assumes "jobs_coll w (jobId jd) = Some j" and "status j \<noteq> Active"
      and "hasValidLinkedInCookies e" and "loadLinkedInCookies e = Inr True"
      and "launch e = None" and "page_setup e = None" and "login_ok e"
      and "scrape e = Inr (scrapedPosts, n)" and "scrapedPosts \<noteq> []"
      and "filterPosts scrapedPosts (options jd) = Inr filteredPosts"
  shows "\<exists>w'. commentWorker_handler e jd w = (Inl validation_error, w') \<and>
              map_option status (jobs_coll w' (jobId jd)) = Some Failed \<and>
              posts_coll w' = posts_coll w"
  using assms commentWorker_insert_rejected[of scrapedPosts jd "posts_coll w"]
  unfolding commentWorker_handler_def commentWorker_try_def commentWorker_catch_def
  by (simp add: Let_def world_simps findById_status)



text \<open>
  C2. The claim: the failure count is incremented on each failed run, and a job that is
  \<^verbatim>\<open>failed\<close> with a count of 3 becomes \<^verbatim>\<open>permanently_failed\<close> and is not
  attempted again. The code at a job delivered four times to the handler of
  linkedPostRefinementWorker.js while the login keeps failing: each run writes
  \<^verbatim>\<open>failedAttempts\<close> in its update, the schema of the job has no such path, so after
  three failed runs the stored job is \<^verbatim>\<open>failed\<close> with no count; the fourth delivery
  reads the count as 0, launches a browser again and fails again, and the job is never
  marked \<^verbatim>\<open>permanently_failed\<close>.
\<close>

theorem failure_count_never_reaches_bound:
  "let j = \<lparr>status = Waiting, startedAt = None, completedAt = None, result = None,
            error = None, currentStep = None, stepProgress = None, failedAttempts = None\<rparr>;
       w = \<lparr>jobs_coll = [''job1'' \<mapsto> j], posts_coll = [], reports_coll = [],
            browsers_launched = 0, browsers_closed = 0\<rparr>;
       jd = \<lparr>jobId = ''job1'', userId = ''user1'', job_keywords = [''AI''], maxComments = 5,
             options = \<lparr>minReactions = None, excludeJobPosts = None\<rparr>\<rparr>;
       e = \<lparr>date_now = 5000, hasValidLinkedInCookies = True, loadLinkedInCookies = Inr True,
            launch = None, page_setup = None, login_ok = False, scrape = Inr ([], 0),
            generateAIComment = (\<lambda>p. Inr ''Great post''),
            postCommentOnPost = (\<lambda>p c. None), comment_on_page = (\<lambda>p. Submitted)\<rparr>;
       d1 = linkedPostRefinementWorker_handler e jd w;
       d2 = linkedPostRefinementWorker_handler e jd (snd d1);
       d3 = linkedPostRefinementWorker_handler e jd (snd d2);
       d4 = linkedPostRefinementWorker_handler e jd (snd d3)
   in fst d1 = Inl (Error ''LinkedIn cookies are invalid or expired. Please update cookies.'') \<and>
      fst d2 = fst d1 \<and> fst d3 = fst d1 \<and> fst d4 = fst d1 \<and>
      map_option status (jobs_coll (snd d3) ''job1'') = Some Failed \<and>
      map_option failedAttempts (jobs_coll (snd d3) ''job1'') = Some None \<and>
      browsers_launched (snd d3) = 3 \<and>
      map_option status (jobs_coll (snd d4) ''job1'') = Some Failed \<and>
      browsers_launched (snd d4) = 4 \<and>
      length (reports_coll (snd d4)) = 4"
proof -
  let ?j = "\<lparr>status = Waiting, startedAt = None, completedAt = None, result = None,
            error = None, currentStep = None, stepProgress = None, failedAttempts = None\<rparr>"
  let ?w = "\<lparr>jobs_coll = [''job1'' \<mapsto> ?j], posts_coll = [], reports_coll = [],
            browsers_launched = 0, browsers_closed = 0\<rparr>"
  let ?jd = "\<lparr>jobId = ''job1'', userId = ''user1'', job_keywords = [''AI''], maxComments = 5,
             options = \<lparr>minReactions = None, excludeJobPosts = None\<rparr>\<rparr>"
  let ?e = "\<lparr>date_now = 5000, hasValidLinkedInCookies = True, loadLinkedInCookies = Inr True,
            launch = None, page_setup = None, login_ok = False, scrape = Inr ([], 0),
            generateAIComment = (\<lambda>p. Inr ''Great post''),
            postCommentOnPost = (\<lambda>p c. None), comment_on_page = (\<lambda>p. Submitted)\<rparr>"
  have e: "launch ?e = None" "page_setup ?e = None" "\<not> login_ok ?e" by simp_all
  have id: "jobId ?jd = ''job1''" by simp
  obtain w1 j1 where 1: "linkedPostRefinementWorker_handler ?e ?jd ?w = (Inl invalid_cookies, w1)"
    "jobs_coll w1 (jobId ?jd) = Some j1" "status j1 = Failed" "failedAttempts j1 = None"
    "browsers_launched w1 = 1" "length (reports_coll w1) = 1"
    using refinement_failed_delivery[of ?w ?jd ?j ?e] by auto
  obtain w2 j2 where 2: "linkedPostRefinementWorker_handler ?e ?jd w1 = (Inl invalid_cookies, w2)"
    "jobs_coll w2 (jobId ?jd) = Some j2" "status j2 = Failed" "failedAttempts j2 = None"
    "browsers_launched w2 = 2" "length (reports_coll w2) = 2"
    using refinement_failed_delivery[OF 1(2) _ e] 1 by auto
  obtain w3 j3 where 3: "linkedPostRefinementWorker_handler ?e ?jd w2 = (Inl invalid_cookies, w3)"
    "jobs_coll w3 (jobId ?jd) = Some j3" "status j3 = Failed" "failedAttempts j3 = None"
    "browsers_launched w3 = 3" "length (reports_coll w3) = 3"
    using refinement_failed_delivery[OF 2(2) _ e] 2 by auto
  obtain w4 j4 where 4: "linkedPostRefinementWorker_handler ?e ?jd w3 = (Inl invalid_cookies, w4)"
    "jobs_coll w4 (jobId ?jd) = Some j4" "status j4 = Failed" "failedAttempts j4 = None"
    "browsers_launched w4 = 4" "length (reports_coll w4) = 4"
    using refinement_failed_delivery[OF 3(2) _ e] 3 by auto
  show ?thesis
    unfolding Let_def using 1 2 3 4 by (simp add: invalid_cookies_def)
qed

text \<open>
  C3. The claim: the browser acquired during a run is closed before the handler returns
  or throws, on every path. The code on two failing runs. commentWorker.js, when the
  loaded cookies hold no \<^verbatim>\<open>li_at\<close>: the browser has been launched, the handler throws
  \<^verbatim>\<open>Missing li_at cookie\<close>, and \<^verbatim>\<open>browser.close\<close> has not been called.
  linkedPostRefinementWorker.js, when a call that sets up the new page rejects: the
  browser has been launched, \<^verbatim>\<open>cleanup\<close> is still \<^verbatim>\<open>null\<close>, and the handler throws
  without a call of \<^verbatim>\<open>browser.close\<close>.
\<close>

theorem browser_left_open_on_failure:
  "let j = \<lparr>status = Waiting, startedAt = None, completedAt = None, result = None,
            error = None, currentStep = None, stepProgress = None, failedAttempts = None\<rparr>;
       w = \<lparr>jobs_coll = [''job1'' \<mapsto> j], posts_coll = [], reports_coll = [],
            browsers_launched = 0, browsers_closed = 0\<rparr>;
       jd = \<lparr>jobId = ''job1'', userId = ''user1'', job_keywords = [''AI''], maxComments = 5,
             options = \<lparr>minReactions = None, excludeJobPosts = None\<rparr>\<rparr>;
       e1 = \<lparr>date_now = 5000, hasValidLinkedInCookies = True, loadLinkedInCookies = Inr False,
             launch = None, page_setup = None, login_ok = True, scrape = Inr ([], 0),
             generateAIComment = (\<lambda>p. Inr ''Great post''),
             postCommentOnPost = (\<lambda>p c. None), comment_on_page = (\<lambda>p. Submitted)\<rparr>;
       e2 = \<lparr>date_now = 5000, hasValidLinkedInCookies = True, loadLinkedInCookies = Inr True,
             launch = None, page_setup = Some (Error ''Protocol error: Target closed''),
             login_ok = True, scrape = Inr ([], 0),
             generateAIComment = (\<lambda>p. Inr ''Great post''),
             postCommentOnPost = (\<lambda>p c. None), comment_on_page = (\<lambda>p. Submitted)\<rparr>
   in fst (commentWorker_handler e1 jd w) = Inl (Error ''Missing li_at cookie'') \<and>
      browsers_launched (snd (commentWorker_handler e1 jd w)) = 1 \<and>
      browsers_closed (snd (commentWorker_handler e1 jd w)) = 0 \<and>
      fst (linkedPostRefinementWorker_handler e2 jd w) =
        Inl (Error ''Protocol error: Target closed'') \<and>
      browsers_launched (snd (linkedPostRefinementWorker_handler e2 jd w)) = 1 \<and>
      browsers_closed (snd (linkedPostRefinementWorker_handler e2 jd w)) = 0"
  by (simp add: commentWorker_handler_def commentWorker_try_def commentWorker_catch_def Let_def
        linkedPostRefinementWorker_handler_def refinement_try_def refinement_catch_def
        world_simps findById_def declared_only_def)

text \<open>
  C4. The claim: a job \<^verbatim>\<open>completed\<close> less than five minutes ago is answered with
  \<^verbatim>\<open>success: false\<close>, is not set back to \<^verbatim>\<open>active\<close> and gets no second Session
  Report. The code at a job completed 60 seconds before the delivery: the handler of
  commentWorker.js, which has no such guard, starts the job again (a new
  \<^verbatim>\<open>startedAt\<close>), launches a second browser, returns \<^verbatim>\<open>success: true\<close> and writes a
  second Session Report; the handler of linkedPostRefinementWorker.js returns
  \<^verbatim>\<open>success: false\<close> and changes nothing.
\<close>

theorem commentWorker_runs_recently_completed_job_again:
  "let counts = \<lparr>rc_totalPostsScraped = 0, rc_filteredPosts = 0,
                 rc_commentsPosted = 0, rc_failed = 0\<rparr>;
       j = \<lparr>status = Completed, startedAt = Some 900000, completedAt = Some 1000000,
            result = Some \<lparr>success = True, commentedCount = 0, totalPostsScraped = 0,
                           sessionReport = counts\<rparr>,
            error = None, currentStep = Some ''Completed'', stepProgress = Some 100,
            failedAttempts = None\<rparr>;
       w = \<lparr>jobs_coll = [''job1'' \<mapsto> j], posts_coll = [],
            reports_coll = [\<lparr>sr_jobId = ''job1'', sr_userId = ''user1'', sr_counts = counts,
                              sr_errors = []\<rparr>],
            browsers_launched = 1, browsers_closed = 1\<rparr>;
       jd = \<lparr>jobId = ''job1'', userId = ''user1'', job_keywords = [''AI''], maxComments = 5,
             options = \<lparr>minReactions = None, excludeJobPosts = None\<rparr>\<rparr>;
       e = \<lparr>date_now = 1060000, hasValidLinkedInCookies = True, loadLinkedInCookies = Inr True,
            launch = None, page_setup = None, login_ok = True, scrape = Inr ([], 0),
            generateAIComment = (\<lambda>p. Inr ''Great post''),
            postCommentOnPost = (\<lambda>p c. None), comment_on_page = (\<lambda>p. Submitted)\<rparr>
   in date_now e - 1000000 < 5 * 60 * 1000 \<and>
      fst (commentWorker_handler e jd w) =
        Inr \<lparr>h_success = True, h_message = None,
              h_commentedCount = Some 0, h_totalPostsScraped = Some 0\<rparr> \<and>
      map_option startedAt (jobs_coll (snd (commentWorker_handler e jd w)) ''job1'')
        = Some (Some 1060000) \<and>
      browsers_launched (snd (commentWorker_handler e jd w)) = 2 \<and>
      length (reports_coll (snd (commentWorker_handler e jd w))) = 2 \<and>
      fst (linkedPostRefinementWorker_handler e jd w) =
        Inr \<lparr>h_success = False, h_message = Some ''Job completed recently'',
              h_commentedCount = None, h_totalPostsScraped = None\<rparr> \<and>
      snd (linkedPostRefinementWorker_handler e jd w) = w"
proof -
  have f: "filterPosts [] \<lparr>minReactions = None, excludeJobPosts = None\<rparr> = Inr []"
    by (simp add: filterPosts_def Let_def excludeJobPosts_of_def)
  show ?thesis
    by (simp add: commentWorker_handler_def commentWorker_try_def commentWorker_catch_def Let_def
        linkedPostRefinementWorker_handler_def skipped_def finished_def f
        selected_for_action_def world_simps findById_def declared_only_def
        insertMany_ordered_def)
qed

text \<open>
  C5. The claim: a batch that contains a pair of \<^verbatim>\<open>postUrl\<close> and \<^verbatim>\<open>userId\<close> already
  in the collection loses only that document; the rest of the batch is written and the
  job does not fail. The code at a batch of two scraped posts, the first already stored
  for this user. commentWorker.js calls \<^verbatim>\<open>insertMany\<close> with the default
  \<^verbatim>\<open>ordered: true\<close> and does not catch its error: its documents carry no
  \<^verbatim>\<open>userId\<close>, so the call is rejected with a validation error, the second post is
  not written, and the job is stored as \<^verbatim>\<open>failed\<close>. Given the same two posts as
  valid documents, a call with the default order stops at the duplicate with error 11000
  and leaves the second post unwritten as well. linkedPostRefinementWorker.js
  (\<^verbatim>\<open>ordered: false\<close>, error 11000 caught) writes the second post and goes on.
\<close>

theorem commentWorker_duplicate_aborts_batch:
  "let j = \<lparr>status = Waiting, startedAt = None, completedAt = None, result = None,
            error = None, currentStep = None, stepProgress = None, failedAttempts = None\<rparr>;
       old = \<lparr>d_postUrl = ''u1'', d_userId = Some ''user1'', d_jobId = ''job0'',
              d_content = Some ''Building reliable data pipelines at scale'',
              d_reactions = Some 12, d_comments = Some 3,
              isCommented = False, commentedText = None, commentedAt = None\<rparr>;
       w = \<lparr>jobs_coll = [''job1'' \<mapsto> j], posts_coll = [old], reports_coll = [],
            browsers_launched = 0, browsers_closed = 0\<rparr>;
       jd = \<lparr>jobId = ''job1'', userId = ''user1'', job_keywords = [''AI''], maxComments = 5,
             options = \<lparr>minReactions = None, excludeJobPosts = None\<rparr>\<rparr>;
       p1 = \<lparr>postUrl = ''u1'', ptext = Some ''Building reliable data pipelines at scale'',
             content = Some ''Building reliable data pipelines at scale'',
             reactions = Some 12, comments = Some 3, keyword = ''AI''\<rparr>;
       p2 = \<lparr>postUrl = ''u2'', ptext = Some ''Lessons from a decade of distributed systems'',
             content = Some ''Lessons from a decade of distributed systems'',
             reactions = Some 20, comments = Some 1, keyword = ''AI''\<rparr>;
       new = \<lparr>d_postUrl = ''u2'', d_userId = Some ''user1'', d_jobId = ''job1'',
              d_content = Some ''Lessons from a decade of distributed systems'',
              d_reactions = Some 20, d_comments = Some 1,
              isCommented = False, commentedText = None, commentedAt = None\<rparr>;
       e = \<lparr>date_now = 5000, hasValidLinkedInCookies = True, loadLinkedInCookies = Inr True,
            launch = None, page_setup = None, login_ok = True, scrape = Inr ([p1, p2], 2),
            generateAIComment = (\<lambda>p. Inr ''Great post''),
            postCommentOnPost = (\<lambda>p c. None), comment_on_page = (\<lambda>p. Submitted)\<rparr>
   in unique_posts (posts_coll w) \<and>
      fst (commentWorker_handler e jd w) = Inl (ValidationError ''Post validation failed'') \<and>
      posts_coll (snd (commentWorker_handler e jd w)) = [old] \<and>
      map_option status (jobs_coll (snd (commentWorker_handler e jd w)) ''job1'') = Some Failed \<and>
      insertMany_ordered [old, new] (posts_coll w) =
        (Some (MongoError 11000 ''E11000 duplicate key error''), [old]) \<and>
      refinement_save_posts jd [p1, p2] (posts_coll w) = (None, [old, new])"
proof -
  let ?p1 = "\<lparr>postUrl = ''u1'', ptext = Some ''Building reliable data pipelines at scale'',
             content = Some ''Building reliable data pipelines at scale'',
             reactions = Some 12, comments = Some 3, keyword = ''AI''\<rparr>"
  let ?p2 = "\<lparr>postUrl = ''u2'', ptext = Some ''Lessons from a decade of distributed systems'',
             content = Some ''Lessons from a decade of distributed systems'',
             reactions = Some 20, comments = Some 1, keyword = ''AI''\<rparr>"
  have f: "filterPosts [?p1, ?p2] \<lparr>minReactions = None, excludeJobPosts = None\<rparr> = Inr [?p2, ?p1]"
    by code_simp
  show ?thesis
    by (simp add: commentWorker_handler_def commentWorker_try_def commentWorker_catch_def Let_def
        f unique_posts_def doc_key_def duplicate_key_def commentWorker_postToSave_def
        refinement_save_posts_def refinement_postToInsert_def error_code_def world_simps
        findById_def declared_only_def insertMany_ordered_def insertMany_unordered_def
        valid_post_doc_def validation_error_def)
qed

end
